theory Spec2Isabelle
  imports Complex_Main "HOL-Library.Word"
begin

section \<open>depth2Cloud: numeric and array model\<close>

text \<open>
  The embedding follows \<^verbatim>\<open>depth2Cloud.py\<close>. numpy's float64 values are modelled by
  exact rationals (\<^typ>\<open>rat\<close>), so every statement below is a statement in rational
  arithmetic; rounding, overflow, \<^verbatim>\<open>inf\<close> and \<^verbatim>\<open>nan\<close> are outside the model. numpy
  divides a float array by zero without raising (it yields \<^verbatim>\<open>inf\<close> or \<^verbatim>\<open>nan\<close>) where
  division in HOL yields 0, so the model is faithful for a nonzero depth scale and nonzero
  focal lengths only. The theorems about the point list assume a nonzero scale; a zero
  focal length changes the X or Y values only, not the number or the order of the
  points, and the theorem that computes with X and Y assumes nonzero focal lengths.
  Python's \<^verbatim>\<open>int / int\<close> does raise and is modelled with its error.

  A two-dimensional ndarray is the list of its rows; a matrix of floats is
  \<^typ>\<open>rat list list\<close>. An ndarray is rectangular by construction, which the model states
  as the predicates \<open>is_matrix\<close> and \<open>rectangular\<close>.
\<close>

datatype error =
  ZeroDivisionError | IndexError | ValueError | TypeError | CvError | NoSuchObject | Unmodelled

type_synonym matrix = "rat list list"

definition bind_res :: "error + 'a \<Rightarrow> ('a \<Rightarrow> error + 'b) \<Rightarrow> error + 'b" where
  "bind_res m f = (case m of Inl e \<Rightarrow> Inl e | Inr x \<Rightarrow> f x)"

definition is_matrix :: "nat \<Rightarrow> nat \<Rightarrow> 'a list list \<Rightarrow> bool" where
  "is_matrix r c m = (length m = r \<and> list_all (\<lambda>row. length row = c) m)"

text \<open>Python's true division of two \<^verbatim>\<open>int\<close>s: a float, or \<^verbatim>\<open>ZeroDivisionError\<close>.\<close>

definition truediv :: "int \<Rightarrow> int \<Rightarrow> error + rat" where
  "truediv a b = (if b = 0 then Inl ZeroDivisionError else Inr (of_int a / of_int b))"

text \<open>\<^verbatim>\<open>m[i, j]\<close> for literal, non-negative indices.\<close>

definition getitem2 :: "matrix \<Rightarrow> nat \<Rightarrow> nat \<Rightarrow> error + rat" where
  "getitem2 m i j =
     (if i < length m \<and> j < length (m ! i) then Inr (m ! i ! j) else Inl IndexError)"

text \<open>\<^verbatim>\<open>m[i, j] *= s\<close>, on the value of the array.\<close>

definition imul_item :: "matrix \<Rightarrow> nat \<Rightarrow> nat \<Rightarrow> rat \<Rightarrow> error + matrix" where
  "imul_item m i j s =
     (if i < length m \<and> j < length (m ! i)
      then Inr (m[i := (m ! i)[j := m ! i ! j * s]])
      else Inl IndexError)"

section \<open>Intrinsics adjustment\<close>

text \<open>
  \<^verbatim>\<open>adjust_intrinsics_for_resolution(K_original, original_size, target_size)\<close>, on values:
  sizes are \<^verbatim>\<open>(height, width)\<close> pairs of Python ints, the two scale factors are computed
  first (width, then height), the copy is then updated entry by entry. (The parameter
  names end in \<open>sz\<close> because \<open>target_size\<close> is a constant of the word library.)
\<close>

definition adjust_intrinsics_for_resolution ::
  "matrix \<Rightarrow> int \<times> int \<Rightarrow> int \<times> int \<Rightarrow> error + matrix" where
  "adjust_intrinsics_for_resolution K_original original_sz target_sz =
     bind_res (truediv (snd target_sz) (snd original_sz)) (\<lambda>scale_x.
     bind_res (truediv (fst target_sz) (fst original_sz)) (\<lambda>scale_y.
     bind_res (imul_item K_original 0 0 scale_x) (\<lambda>K1.
     bind_res (imul_item K1 1 1 scale_y) (\<lambda>K2.
     bind_res (imul_item K2 0 2 scale_x) (\<lambda>K3.
     imul_item K3 1 2 scale_y)))))"

subsection \<open>The same function on a store of arrays\<close>

text \<open>
  To speak about mutation, arrays live in a store: a reference is an index into the list
  of allocated arrays. \<^verbatim>\<open>K_original.copy()\<close> allocates a new array at the end of the
  store, and \<^verbatim>\<open>K_adjusted[i, j] *= s\<close> overwrites the array that \<^verbatim>\<open>K_adjusted\<close>
  refers to. Every step returns the store it leaves behind, also when it raises.
  \<open>NoSuchObject\<close> is not a Python exception: it is the model's answer for a reference
  outside the store, which a Python program cannot hold.
\<close>

type_synonym ref = nat
type_synonym heap = "matrix list"

definition ndarray_copy :: "heap \<Rightarrow> ref \<Rightarrow> (error + ref) \<times> heap" where
  "ndarray_copy h r =
     (if r < length h then (Inr (length h), h @ [h ! r]) else (Inl NoSuchObject, h))"

definition imul_item_at :: "heap \<Rightarrow> ref \<Rightarrow> nat \<Rightarrow> nat \<Rightarrow> rat \<Rightarrow> (error + unit) \<times> heap" where
  "imul_item_at h r i j s =
     (if r < length h
      then (case imul_item (h ! r) i j s of
              Inl e \<Rightarrow> (Inl e, h)
            | Inr m \<Rightarrow> (Inr (), h[r := m]))
      else (Inl NoSuchObject, h))"

definition adjust_intrinsics_for_resolution_st ::
  "heap \<Rightarrow> ref \<Rightarrow> int \<times> int \<Rightarrow> int \<times> int \<Rightarrow> (error + ref) \<times> heap" where
  "adjust_intrinsics_for_resolution_st h K_original original_sz target_sz =
     (case truediv (snd target_sz) (snd original_sz) of
        Inl e \<Rightarrow> (Inl e, h)
      | Inr scale_x \<Rightarrow>
     (case truediv (fst target_sz) (fst original_sz) of
        Inl e \<Rightarrow> (Inl e, h)
      | Inr scale_y \<Rightarrow>
     (case ndarray_copy h K_original of
        (Inl e, h0) \<Rightarrow> (Inl e, h0)
      | (Inr K_adjusted, h0) \<Rightarrow>
     (case imul_item_at h0 K_adjusted 0 0 scale_x of
        (Inl e, h1) \<Rightarrow> (Inl e, h1)
      | (Inr _, h1) \<Rightarrow>
     (case imul_item_at h1 K_adjusted 1 1 scale_y of
        (Inl e, h2) \<Rightarrow> (Inl e, h2)
      | (Inr _, h2) \<Rightarrow>
     (case imul_item_at h2 K_adjusted 0 2 scale_x of
        (Inl e, h3) \<Rightarrow> (Inl e, h3)
      | (Inr _, h3) \<Rightarrow>
     (case imul_item_at h3 K_adjusted 1 2 scale_y of
        (Inl e, h4) \<Rightarrow> (Inl e, h4)
      | (Inr _, h4) \<Rightarrow> (Inr K_adjusted, h4))))))))"

section \<open>Back-projection\<close>

text \<open>
  The depth image is a grid of unsigned 16-bit values. The colour image is a grid of
  three 8-bit channels per pixel, kept in the order in which they are stored (channel 0,
  1, 2; the source reads them as blue, green, red). \<open>shape2\<close> is \<^verbatim>\<open>a.shape[:2]\<close>, that
  is \<^verbatim>\<open>(height, width)\<close>; an array without rows is given width 0.
\<close>

type_synonym depth_image = "16 word list list"
type_synonym pixel = "8 word \<times> 8 word \<times> 8 word"
type_synonym rgb_image = "pixel list list"

definition shape2 :: "'a list list \<Rightarrow> nat \<times> nat" where
  "shape2 a = (length a, case a of [] \<Rightarrow> 0 | r # _ \<Rightarrow> length r)"

definition rectangular :: "'a list list \<Rightarrow> bool" where
  "rectangular a = list_all (\<lambda>row. length row = snd (shape2 a)) a"

text \<open>\<^verbatim>\<open>np.meshgrid(u, v)\<close> with the default \<^verbatim>\<open>xy\<close> indexing: both results have one row
  per element of \<open>v\<close> and one column per element of \<open>u\<close>.\<close>

definition meshgrid :: "'a list \<Rightarrow> 'a list \<Rightarrow> 'a list list \<times> 'a list list" where
  "meshgrid u v = (map (\<lambda>_. u) v, map (\<lambda>y. map (\<lambda>_. y) u) v)"

text \<open>\<^verbatim>\<open>np.ravel\<close> of a two-dimensional array (row-major).\<close>

definition ravel :: "'a list list \<Rightarrow> 'a list" where
  "ravel a = concat a"

text \<open>\<^verbatim>\<open>a[mask]\<close> for one-dimensional \<open>a\<close> and a boolean \<open>msk\<close>: numpy raises
  \<^verbatim>\<open>IndexError\<close> when the two lengths differ.\<close>

definition bool_index :: "'a list \<Rightarrow> bool list \<Rightarrow> error + 'a list" where
  "bool_index a msk =
     (if length msk = length a then Inr (map fst (filter snd (zip a msk)))
      else Inl IndexError)"

text \<open>\<^verbatim>\<open>np.dot(A, B)\<close> for two-dimensional arrays: \<^verbatim>\<open>ValueError\<close> unless every row of
  \<open>A\<close> has as many entries as \<open>B\<close> has rows.\<close>

definition dot :: "matrix \<Rightarrow> matrix \<Rightarrow> error + matrix" where
  "dot A B =
     (if list_all (\<lambda>row. length row = length B) A
      then Inr (map (\<lambda>row. map (\<lambda>j. sum_list (map2 (*) row (map (\<lambda>b. b ! j) B)))
                               [0..<snd (shape2 B)]) A)
      else Inl ValueError)"

text \<open>\<^verbatim>\<open>np.transpose\<close> of a two-dimensional array.\<close>

definition transpose2 :: "'a list list \<Rightarrow> 'a list list" where
  "transpose2 a = map (\<lambda>j. map (\<lambda>row. row ! j) a) [0..<snd (shape2 a)]"

text \<open>
  Lines 74 to 105 of \<^verbatim>\<open>depth_image_to_point_cloud\<close>: the vectorised back-projection,
  the mask of positive depths, the pose, the colours.
\<close>

definition back_project ::
  "rgb_image \<Rightarrow> depth_image \<Rightarrow> rat \<Rightarrow> matrix \<Rightarrow> matrix \<Rightarrow> error + rat list list" where
  "back_project rgb depth scale K pose =
     (let (u0, v0) = meshgrid [0..<snd (shape2 depth)] [0..<fst (shape2 depth)];
          u = map (map rat_of_nat) u0;
          v = map (map rat_of_nat) v0;
          Z = map (map (\<lambda>d. rat_of_nat (unat d) / scale)) depth
      in
      bind_res (getitem2 K 0 2) (\<lambda>cx.
      bind_res (getitem2 K 0 0) (\<lambda>fx.
      bind_res (getitem2 K 1 2) (\<lambda>cy.
      bind_res (getitem2 K 1 1) (\<lambda>fy.
      let X = map2 (map2 (\<lambda>u z. (u - cx) * z / fx)) u Z;
          Y = map2 (map2 (\<lambda>v z. (v - cy) * z / fy)) v Z;
          X1 = ravel X;
          Y1 = ravel Y;
          Z1 = ravel Z;
          valid = map (\<lambda>z. 0 < z) Z1
      in
      bind_res (bool_index X1 valid) (\<lambda>X2.
      bind_res (bool_index Y1 valid) (\<lambda>Y2.
      bind_res (bool_index Z1 valid) (\<lambda>Z2.
      bind_res (dot pose [X2, Y2, Z2, replicate (length X2) 1]) (\<lambda>position.
      bind_res (bool_index (ravel (map (map (\<lambda>(c0, c1, c2). c0)) rgb)) valid) (\<lambda>B.
      bind_res (bool_index (ravel (map (map (\<lambda>(c0, c1, c2). c1)) rgb)) valid) (\<lambda>G.
      bind_res (bool_index (ravel (map (map (\<lambda>(c0, c1, c2). c2)) rgb)) valid) (\<lambda>R.
      Inr (transpose2 (take 3 position @
             [map (\<lambda>c. rat_of_nat (unat c)) R,
              map (\<lambda>c. rat_of_nat (unat c)) G,
              map (\<lambda>c. rat_of_nat (unat c)) B]))))))))))))))"

text \<open>
  The whole function. \<^verbatim>\<open>cv2.resize\<close> is a library call, so it is a parameter of the
  model: \<open>cv2_resize img (width, height)\<close> returns the resampled image or raises. The
  optional \<^verbatim>\<open>rgb_size\<close> is \<open>None\<close> by default.
\<close>

definition depth_image_to_point_cloud ::
  "(rgb_image \<Rightarrow> nat \<times> nat \<Rightarrow> error + rgb_image) \<Rightarrow> rgb_image \<Rightarrow> depth_image \<Rightarrow> rat \<Rightarrow>
   matrix \<Rightarrow> matrix \<Rightarrow> (int \<times> int) option \<Rightarrow> error + rat list list" where
  "depth_image_to_point_cloud cv2_resize rgb depth scale K pose rgb_size =
     bind_res
       (if rgb_size \<noteq> None \<and> shape2 rgb \<noteq> shape2 depth
        then
          bind_res (adjust_intrinsics_for_resolution K (the rgb_size)
                      (int (fst (shape2 depth)), int (snd (shape2 depth)))) (\<lambda>K_adjusted.
          bind_res (cv2_resize rgb (snd (shape2 depth), fst (shape2 depth))) (\<lambda>rgb'.
          Inr (K_adjusted, rgb')))
        else Inr (K, rgb))
       (\<lambda>(K', rgb'). back_project rgb' depth scale K' pose)"

text \<open>\<^verbatim>\<open>np.eye(n)\<close>, the pose that \<^verbatim>\<open>build_point_cloud\<close> passes for camera-frame output.\<close>

definition eye :: "nat \<Rightarrow> matrix" where
  "eye n = map (\<lambda>i. map (\<lambda>j. if i = j then 1 else 0) [0..<n]) [0..<n]"

text \<open>
  A stand-in for \<^verbatim>\<open>cv2.resize\<close> on a source image of one pixel: whatever the
  interpolation, every pixel of the result is that pixel. It is used only to run the
  model on concrete inputs.
\<close>

definition resize_constant :: "rgb_image \<Rightarrow> nat \<times> nat \<Rightarrow> error + rgb_image" where
  "resize_constant img dsize = Inr (replicate (snd dsize) (replicate (fst dsize) (img ! 0 ! 0)))"

subsection \<open>The per-pixel description of the specification\<close>

text \<open>
  The specification describes the same computation pixel by pixel, for \<open>(u, v)\<close> in
  row-major order. These definitions follow its words; the theorems compare them with
  the vectorised code above. A pixel is written \<open>(v, u)\<close>, row first.
\<close>

definition pixel_coords :: "nat \<Rightarrow> nat \<Rightarrow> (nat \<times> nat) list" where
  "pixel_coords h w = concat (map (\<lambda>v. map (\<lambda>u. (v, u)) [0..<w]) [0..<h])"

definition positive_pixels :: "depth_image \<Rightarrow> (nat \<times> nat) list" where
  "positive_pixels depth =
     filter (\<lambda>(v, u). 0 < depth ! v ! u)
       (pixel_coords (fst (shape2 depth)) (snd (shape2 depth)))"

definition camera_point :: "depth_image \<Rightarrow> rat \<Rightarrow> matrix \<Rightarrow> nat \<times> nat \<Rightarrow> rat list" where
  "camera_point depth scale K p =
     (let Z = rat_of_nat (unat (depth ! fst p ! snd p)) / scale;
          X = (rat_of_nat (snd p) - K ! 0 ! 2) * Z / (K ! 0 ! 0);
          Y = (rat_of_nat (fst p) - K ! 1 ! 2) * Z / (K ! 1 ! 1)
      in [X, Y, Z, 1])"

definition pixel_point ::
  "rgb_image \<Rightarrow> depth_image \<Rightarrow> rat \<Rightarrow> matrix \<Rightarrow> matrix \<Rightarrow> nat \<times> nat \<Rightarrow> rat list" where
  "pixel_point rgb depth scale K pose p =
     map (\<lambda>row. sum_list (map2 (*) row (camera_point depth scale K p))) (take 3 pose) @
     (case rgb ! fst p ! snd p of
        (c0, c1, c2) \<Rightarrow> [rat_of_nat (unat c2), rat_of_nat (unat c1), rat_of_nat (unat c0)])"

text \<open>The pixels that survive the filter \<open>Z > 0\<close>, in scan order.\<close>

definition valid_pixels :: "depth_image \<Rightarrow> rat \<Rightarrow> (nat \<times> nat) list" where
  "valid_pixels depth scale =
     filter (\<lambda>p. 0 < rat_of_nat (unat (depth ! fst p ! snd p)) / scale)
       (pixel_coords (fst (shape2 depth)) (snd (shape2 depth)))"

text \<open>A grid given by a function of the pixel; it is used to reason about the array
  operations, not by the model.\<close>

definition tabulate2 :: "nat \<Rightarrow> nat \<Rightarrow> (nat \<times> nat \<Rightarrow> 'a) \<Rightarrow> 'a list list" where
  "tabulate2 h w g = map (\<lambda>v. map (\<lambda>u. g (v, u)) [0..<w]) [0..<h]"

section \<open>Serialisation\<close>

text \<open>
  \<^verbatim>\<open>write_point_cloud\<close> builds the file with Python's \<^verbatim>\<open>%\<close> operator. The model
  interprets a format string over its arguments, for the three directives the source
  uses: \<^verbatim>\<open>%d\<close>, \<^verbatim>\<open>%f\<close> and \<^verbatim>\<open>%s\<close>. A point is a list of floats (the rows of the
  array that \<^verbatim>\<open>depth_image_to_point_cloud\<close> converts with \<^verbatim>\<open>tolist\<close>), so the colour
  entries reach \<^verbatim>\<open>%d\<close> as floats and are truncated towards zero. \<^verbatim>\<open>%f\<close> prints six
  decimals, rounding the exact value half to even. \<open>Unmodelled\<close> is not a Python
  exception: it marks \<^verbatim>\<open>%s\<close> of a float, which the source never does.
\<close>

datatype fmt_arg = ArgInt int | ArgFloat rat | ArgStr string

definition digit_char :: "int \<Rightarrow> char" where
  "digit_char d = ''0123456789'' ! nat d"

text \<open>The decimal digits of a non-negative integer.\<close>

function decimal :: "int \<Rightarrow> string" where
  "decimal n = (if n < 10 then [digit_char n] else decimal (n div 10) @ [digit_char (n mod 10)])"
  by pat_completeness auto
termination
  by (relation "measure nat") auto

declare decimal.simps [simp del]

definition show_int :: "int \<Rightarrow> string" where
  "show_int i = (if i < 0 then CHR ''-'' # decimal (- i) else decimal i)"

definition truncate :: "rat \<Rightarrow> int" where
  "truncate q = (if q < 0 then - \<lfloor>- q\<rfloor> else \<lfloor>q\<rfloor>)"

definition round_half_even :: "rat \<Rightarrow> int" where
  "round_half_even q =
     (let f = \<lfloor>q\<rfloor>; r = q - of_int f
      in if r < 1 / 2 then f else if 1 / 2 < r then f + 1 else if even f then f else f + 1)"

definition zfill :: "nat \<Rightarrow> string \<Rightarrow> string" where
  "zfill w s = replicate (w - length s) CHR ''0'' @ s"

definition format_f :: "rat \<Rightarrow> string" where
  "format_f q =
     (let n = round_half_even (\<bar>q\<bar> * 1000000)
      in (if q < 0 then ''-'' else []) @ decimal (n div 1000000) @ ''.'' @
         zfill 6 (decimal (n mod 1000000)))"

definition format_d :: "int \<Rightarrow> string" where
  "format_d i = show_int i"

definition convert :: "char \<Rightarrow> fmt_arg \<Rightarrow> error + string" where
  "convert c a =
     (if c = CHR ''d'' then
        (case a of ArgInt i \<Rightarrow> Inr (format_d i)
                 | ArgFloat q \<Rightarrow> Inr (format_d (truncate q))
                 | ArgStr s \<Rightarrow> Inl TypeError)
      else if c = CHR ''f'' then
        (case a of ArgInt i \<Rightarrow> Inr (format_f (of_int i))
                 | ArgFloat q \<Rightarrow> Inr (format_f q)
                 | ArgStr s \<Rightarrow> Inl TypeError)
      else if c = CHR ''s'' then
        (case a of ArgStr s \<Rightarrow> Inr s
                 | ArgInt i \<Rightarrow> Inr (show_int i)
                 | ArgFloat q \<Rightarrow> Inl Unmodelled)
      else Inl ValueError)"

text \<open>\<^verbatim>\<open>fmt % args\<close>: too few or too many arguments raise \<^verbatim>\<open>TypeError\<close>.\<close>

fun py_format :: "string \<Rightarrow> fmt_arg list \<Rightarrow> error + string" where
  "py_format [] args = (if args = [] then Inr [] else Inl TypeError)"
| "py_format (c # cs) args =
     (if c = CHR ''%'' then
        (case cs of
           [] \<Rightarrow> Inl ValueError
         | d # rest \<Rightarrow>
             (case args of
                [] \<Rightarrow> Inl TypeError
              | a # as \<Rightarrow>
                  bind_res (convert d a) (\<lambda>s.
                  bind_res (py_format rest as) (\<lambda>t. Inr (s @ t)))))
      else bind_res (py_format cs args) (\<lambda>t. Inr (c # t)))"

text \<open>\<^verbatim>\<open>xs[i]\<close> for a literal, non-negative index.\<close>

definition getitem1 :: "'a list \<Rightarrow> nat \<Rightarrow> error + 'a" where
  "getitem1 xs i = (if i < length xs then Inr (xs ! i) else Inl IndexError)"

text \<open>The loop of lines 10 and 11: one formatted line per point, in order.\<close>

fun format_points :: "rat list list \<Rightarrow> error + string list" where
  "format_points [] = Inr []"
| "format_points (point # points) =
     bind_res (getitem1 point 0) (\<lambda>p0.
     bind_res (getitem1 point 1) (\<lambda>p1.
     bind_res (getitem1 point 2) (\<lambda>p2.
     bind_res (getitem1 point 3) (\<lambda>p3.
     bind_res (getitem1 point 4) (\<lambda>p4.
     bind_res (getitem1 point 5) (\<lambda>p5.
     bind_res (py_format ''%f %f %f %d %d %d 0\<newline>''
                 [ArgFloat p0, ArgFloat p1, ArgFloat p2, ArgFloat p3, ArgFloat p4, ArgFloat p5])
       (\<lambda>line.
     bind_res (format_points points) (\<lambda>formatted_points.
     Inr (line # formatted_points)))))))))"

text \<open>
  The triple-quoted literal of lines 14 to 26, character by character: every line after
  the first starts with the four spaces of the source's indentation, and the literal
  ends with a newline and four spaces.
\<close>

definition ply_template :: string where
  "ply_template =
     ''ply\<newline>    format ascii 1.0\<newline>    element vertex %d\<newline>    property float x\<newline>    property float y\<newline>    property float z\<newline>    property uchar blue\<newline>    property uchar green\<newline>    property uchar red\<newline>    property uchar alpha\<newline>    end_header\<newline>    %s\<newline>    ''"

text \<open>The file system maps a file name to the content of the file; opening with mode
  \<^verbatim>\<open>w\<close> and writing replaces the content.\<close>

type_synonym filesystem = "string \<rightharpoonup> string"

definition write_point_cloud :: "filesystem \<Rightarrow> string \<Rightarrow> rat list list \<Rightarrow> error + filesystem" where
  "write_point_cloud fs ply_filename points =
     bind_res (format_points points) (\<lambda>formatted_points.
     bind_res (py_format ply_template
                 [ArgInt (int (length points)), ArgStr (concat formatted_points)]) (\<lambda>text.
     Inr (fs(ply_filename \<mapsto> text))))"

subsection \<open>Reading the file back\<close>

text \<open>
  The claims speak about the lines and fields of the file. \<open>split_on\<close> is Python's
  \<^verbatim>\<open>str.split(sep)\<close>. The header is the first eleven lines, without their indentation;
  the data lines are the remaining lines, without indentation and without the lines that
  hold nothing but blanks (the template leaves two of them at the end of the file).
\<close>

fun split_on :: "char \<Rightarrow> string \<Rightarrow> string list" where
  "split_on c [] = [[]]"
| "split_on c (x # xs) =
     (if x = c then [] # split_on c xs
      else (case split_on c xs of
              [] \<Rightarrow> [[x]]
            | w # ws \<Rightarrow> (x # w) # ws))"

definition lstrip :: "string \<Rightarrow> string" where
  "lstrip s = dropWhile (\<lambda>c. c = CHR '' '') s"

definition header_lines :: "string \<Rightarrow> string list" where
  "header_lines text = map lstrip (take 11 (split_on CHR ''\<newline>'' text))"

definition data_lines :: "string \<Rightarrow> string list" where
  "data_lines text = filter (\<lambda>l. l \<noteq> []) (map lstrip (drop 11 (split_on CHR ''\<newline>'' text)))"

text \<open>The names that the header declares, in order: the last word of every line that
  starts with \<^verbatim>\<open>property\<close>.\<close>

definition property_names :: "string \<Rightarrow> string list" where
  "property_names text =
     map (\<lambda>l. last (split_on CHR '' '' l))
       (filter (\<lambda>l. take 8 l = ''property'') (header_lines text))"

definition is_digit :: "char \<Rightarrow> bool" where
  "is_digit c = (c \<in> set ''0123456789'')"

text \<open>A float field: an optional minus sign, at least one digit, a point, six digits.\<close>

definition is_float_field :: "string \<Rightarrow> bool" where
  "is_float_field s =
     (let body = (case s of [] \<Rightarrow> [] | c # cs \<Rightarrow> if c = CHR ''-'' then cs else s);
          ip = takeWhile is_digit body;
          rest = dropWhile is_digit body
      in ip \<noteq> [] \<and>
         (case rest of
            [] \<Rightarrow> False
          | c # fp \<Rightarrow> c = CHR ''.'' \<and> length fp = 6 \<and> list_all is_digit fp))"

text \<open>The fields and the line that the specification describes for one point, and the
  raw lines of the header; the characters that a formatted number can hold.\<close>

definition point_fields :: "rat list \<Rightarrow> string list" where
  "point_fields p =
     [format_f (p ! 0), format_f (p ! 1), format_f (p ! 2),
      format_d (truncate (p ! 3)), format_d (truncate (p ! 4)), format_d (truncate (p ! 5)),
      ''0'']"

definition point_line :: "rat list \<Rightarrow> string" where
  "point_line p =
     format_f (p ! 0) @ '' '' @ format_f (p ! 1) @ '' '' @ format_f (p ! 2) @ '' '' @
     format_d (truncate (p ! 3)) @ '' '' @ format_d (truncate (p ! 4)) @ '' '' @
     format_d (truncate (p ! 5)) @ '' 0''"

definition ply_header :: "int \<Rightarrow> string list" where
  "ply_header n =
     [''ply'', ''    format ascii 1.0'', ''    element vertex '' @ show_int n,
      ''    property float x'', ''    property float y'', ''    property float z'',
      ''    property uchar blue'', ''    property uchar green'', ''    property uchar red'',
      ''    property uchar alpha'', ''    end_header'']"

definition field_char :: "char \<Rightarrow> bool" where
  "field_char c = (is_digit c \<or> c = CHR ''-'' \<or> c = CHR ''.'')"

section \<open>Properties of the intrinsics adjustment\<close>

lemma is_matrix_3_3:
  assumes "is_matrix 3 3 K"
  obtains a b c d e f g h i where "K = [[a, b, c], [d, e, f], [g, h, i]]"
proof -
  from assms have len: "length K = 3" and rows: "\<forall>row \<in> set K. length row = 3"
    by (simp_all add: is_matrix_def list_all_iff)
  from len obtain r0 r1 r2 where K: "K = [r0, r1, r2]"
    by (auto simp: numeral_3_eq_3 length_Suc_conv)
  from rows K have "length r0 = 3" "length r1 = 3" "length r2 = 3"
    by simp_all
  then obtain a b c d e f g h i
    where "r0 = [a, b, c]" "r1 = [d, e, f]" "r2 = [g, h, i]"
    by (auto simp: numeral_3_eq_3 length_Suc_conv)
  with K show thesis
    using that by blast
qed

lemma adjust_3_3:
  assumes "H0 \<noteq> 0" "W0 \<noteq> 0"
  shows "adjust_intrinsics_for_resolution [[a, b, c], [d, e, f], [g, h, i]] (H0, W0) (H1, W1)
         = Inr [[a * (of_int W1 / of_int W0), b, c * (of_int W1 / of_int W0)],
                [d, e * (of_int H1 / of_int H0), f * (of_int H1 / of_int H0)],
                [g, h, i]]"
  using assms
  by (simp add: adjust_intrinsics_for_resolution_def truediv_def imul_item_def bind_res_def)

text \<open>
  C4. For a 3x3 matrix K and an original resolution \<open>(H0, W0)\<close> with nonzero dimensions,
  the call returns K' with \<open>K'[0,0] = K[0,0] * (W1/W0)\<close>, \<open>K'[1,1] = K[1,1] * (H1/H0)\<close>,
  \<open>K'[0,2] = K[0,2] * (W1/W0)\<close>, \<open>K'[1,2] = K[1,2] * (H1/H0)\<close>, and every other entry
  of K' equal to the entry of K at the same place.
\<close>

theorem adjust_intrinsics_entries:
  assumes "is_matrix 3 3 K" and "H0 \<noteq> 0" and "W0 \<noteq> 0"
  shows "\<exists>K'. adjust_intrinsics_for_resolution K (H0, W0) (H1, W1) = Inr K'
           \<and> is_matrix 3 3 K'
           \<and> K' ! 0 ! 0 = K ! 0 ! 0 * (of_int W1 / of_int W0)
           \<and> K' ! 1 ! 1 = K ! 1 ! 1 * (of_int H1 / of_int H0)
           \<and> K' ! 0 ! 2 = K ! 0 ! 2 * (of_int W1 / of_int W0)
           \<and> K' ! 1 ! 2 = K ! 1 ! 2 * (of_int H1 / of_int H0)
           \<and> K' ! 0 ! 1 = K ! 0 ! 1
           \<and> K' ! 1 ! 0 = K ! 1 ! 0
           \<and> K' ! 2 = K ! 2"
proof -
  from assms(1) obtain a b c d e f g h i where K: "K = [[a, b, c], [d, e, f], [g, h, i]]"
    by (rule is_matrix_3_3)
  show ?thesis
    unfolding K adjust_3_3 [OF assms(2,3)]
    by (simp add: is_matrix_def)
qed

theorem adjust_intrinsics_entries_witness:
  "adjust_intrinsics_for_resolution [[500, 0, 320], [0, 500, 240], [0, 0, 1]] (480, 640) (192, 256)
     = Inr [[200, 0, 128], [0, 200, 96], [0, 0, 1]]"
proof -
  have m: "is_matrix 3 3 [[500, 0, 320], [0, 500, 240], [0, 0, 1 :: rat]]"
    by (simp add: is_matrix_def)
  have "(480 :: int) \<noteq> 0" "(640 :: int) \<noteq> 0"
    by simp_all
  from adjust_intrinsics_entries [OF m this, of 192 256]
  obtain K' where K': "adjust_intrinsics_for_resolution [[500, 0, 320], [0, 500, 240], [0, 0, 1]]
        (480, 640) (192, 256) = Inr K'"
    and m': "is_matrix 3 3 K'"
    and e: "K' ! 0 ! 0 = 200" "K' ! 1 ! 1 = 200" "K' ! 0 ! 2 = 128" "K' ! 1 ! 2 = 96"
      "K' ! 0 ! 1 = 0" "K' ! 1 ! 0 = 0" "K' ! 2 = [0, 0, 1]"
    by auto
  from m' obtain a b c d e' f g h i where "K' = [[a, b, c], [d, e', f], [g, h, i]]"
    by (rule is_matrix_3_3)
  with e have "K' = [[200, 0, 128], [0, 200, 96], [0, 0, 1]]"
    by simp
  with K' show ?thesis
    by simp
qed

text \<open>
  C5. For every 3x3 matrix K and resolutions A and B with positive dimensions, adjusting
  from A to B and then from B back to A returns K itself (in rational arithmetic).
\<close>

theorem adjust_intrinsics_round_trip:
  assumes "is_matrix 3 3 K"
    and "0 < HA" and "0 < WA" and "0 < HB" and "0 < WB"
  shows "bind_res (adjust_intrinsics_for_resolution K (HA, WA) (HB, WB))
           (\<lambda>K'. adjust_intrinsics_for_resolution K' (HB, WB) (HA, WA)) = Inr K"
proof -
  from assms(1) obtain a b c d e f g h i where K: "K = [[a, b, c], [d, e, f], [g, h, i]]"
    by (rule is_matrix_3_3)
  from assms(2-5) have nz: "HA \<noteq> 0" "WA \<noteq> 0" "HB \<noteq> 0" "WB \<noteq> 0"
    by simp_all
  show ?thesis
    unfolding K adjust_3_3 [OF nz(1,2)]
    using nz by (simp add: bind_res_def adjust_3_3)
qed

theorem adjust_intrinsics_round_trip_witness:
  "bind_res (adjust_intrinsics_for_resolution [[500, 0, 320], [0, 500, 240], [0, 0, 1]]
               (480, 640) (192, 256))
     (\<lambda>K'. adjust_intrinsics_for_resolution K' (192, 256) (480, 640))
   = Inr [[500, 0, 320], [0, 500, 240], [0, 0, 1]]"
proof -
  have m: "is_matrix 3 3 [[500, 0, 320], [0, 500, 240], [0, 0, 1 :: rat]]"
    by (simp add: is_matrix_def)
  show ?thesis
    by (rule adjust_intrinsics_round_trip [OF m]) simp_all
qed

subsection \<open>Mutation\<close>

lemma imul_item_at_append:
  "imul_item_at (h @ [m]) (length h) i j s =
     (case imul_item m i j s of
        Inl e \<Rightarrow> (Inl e, h @ [m])
      | Inr m' \<Rightarrow> (Inr (), h @ [m']))"
  by (simp add: imul_item_at_def split: sum.split)

lemma adjust_st_shape:
  assumes "K_ref < length h"
    and "adjust_intrinsics_for_resolution_st h K_ref osz tsz = (res, h')"
  shows "(h' = h \<or> (\<exists>m. h' = h @ [m]))
         \<and> (\<forall>r. res = Inr r \<longrightarrow> r = length h
                \<and> (\<exists>m. h' = h @ [m] \<and> adjust_intrinsics_for_resolution (h ! K_ref) osz tsz = Inr m))
         \<and> (\<forall>e. res = Inl e \<longrightarrow> adjust_intrinsics_for_resolution (h ! K_ref) osz tsz = Inl e)"
  using assms
  by (auto simp: adjust_intrinsics_for_resolution_st_def adjust_intrinsics_for_resolution_def
      ndarray_copy_def imul_item_at_append bind_res_def split: sum.splits)

text \<open>
  C9. The call never changes the caller's matrix: whatever it returns, the array that
  \<open>K_ref\<close> refers to holds the values it held before, as does every array that was
  allocated before the call. On success the result is a new reference, different from
  \<open>K_ref\<close>, and the array behind it is the adjusted matrix.
\<close>

theorem adjust_intrinsics_input_unchanged:
  assumes "K_ref < length h"
    and "adjust_intrinsics_for_resolution_st h K_ref osz tsz = (res, h')"
  shows "h' ! K_ref = h ! K_ref
         \<and> take (length h) h' = h
         \<and> (\<forall>r. res = Inr r \<longrightarrow>
               r \<noteq> K_ref \<and> r = length h \<and> length h' = Suc (length h)
               \<and> adjust_intrinsics_for_resolution (h ! K_ref) osz tsz = Inr (h' ! r))"
  using adjust_st_shape [OF assms] assms(1)
  by (auto simp: nth_append)

theorem adjust_intrinsics_input_unchanged_witness:
  "adjust_intrinsics_for_resolution_st [[[500, 0, 320], [0, 500, 240], [0, 0, 1]]] 0
     (480, 640) (192, 256)
   = (Inr 1, [[[500, 0, 320], [0, 500, 240], [0, 0, 1]],
              [[200, 0, 128], [0, 200, 96], [0, 0, 1]]])"
proof -
  obtain res h' where r: "adjust_intrinsics_for_resolution_st
      [[[500, 0, 320], [0, 500, 240], [0, 0, 1]]] 0 (480, 640) (192, 256) = (res, h')"
    by (cases "adjust_intrinsics_for_resolution_st
      [[[500, 0, 320], [0, 500, 240], [0, 0, 1]]] 0 (480, 640) (192, 256)")
  have "(0 :: nat) < length [[[500, 0, 320], [0, 500, 240], [0, 0, 1 :: rat]]]"
    by simp
  from adjust_intrinsics_input_unchanged [OF this r]
  have "h' ! 0 = [[500, 0, 320], [0, 500, 240], [0, 0, 1]]"
    by simp
  moreover have "adjust_intrinsics_for_resolution_st
      [[[500, 0, 320], [0, 500, 240], [0, 0, 1]]] 0 (480, 640) (192, 256)
      = (Inr 1, [[[500, 0, 320], [0, 500, 240], [0, 0, 1]],
              [[200, 0, 128], [0, 200, 96], [0, 0, 1]]])"
    by (simp add: adjust_intrinsics_for_resolution_st_def truediv_def ndarray_copy_def
        imul_item_at_def imul_item_def)
  ultimately show ?thesis
    using r by simp
qed

section \<open>Properties of the back-projection\<close>

subsection \<open>The vectorised code computes the per-pixel description\<close>

lemma rectangular_tabulate2:
  assumes "rectangular a"
  shows "a = tabulate2 (fst (shape2 a)) (snd (shape2 a)) (\<lambda>p. a ! fst p ! snd p)"
proof -
  have "\<And>v. v < length a \<Longrightarrow> a ! v = map (\<lambda>u. a ! v ! u) [0..<snd (shape2 a)]"
  proof -
    fix v assume "v < length a"
    with assms have "length (a ! v) = snd (shape2 a)"
      by (simp add: rectangular_def list_all_length)
    then show "a ! v = map (\<lambda>u. a ! v ! u) [0..<snd (shape2 a)]"
      by (metis map_nth)
  qed
  then show ?thesis
    by (auto simp: tabulate2_def shape2_def intro!: nth_equalityI)
qed

lemma meshgrid_tabulate2:
  "meshgrid [0..<w] [0..<h] = (tabulate2 h w snd, tabulate2 h w fst)"
  by (simp add: meshgrid_def tabulate2_def)

lemma map_map_tabulate2:
  "map (map f) (tabulate2 h w g) = tabulate2 h w (\<lambda>p. f (g p))"
  by (simp add: tabulate2_def)

lemma map2_map2_tabulate2:
  "map2 (map2 f) (tabulate2 h w g1) (tabulate2 h w g2) = tabulate2 h w (\<lambda>p. f (g1 p) (g2 p))"
  by (simp add: tabulate2_def zip_map_map zip_same_conv_map)

lemma ravel_tabulate2:
  "ravel (tabulate2 h w g) = map g (pixel_coords h w)"
  by (simp add: ravel_def tabulate2_def pixel_coords_def map_concat comp_def)

lemma bool_index_map:
  "bool_index (map f cs) (map (\<lambda>z. 0 < z) (map g cs)) = Inr (map f (filter (\<lambda>p. 0 < g p) cs))"
  by (induction cs) (auto simp: bool_index_def)

lemma transpose2_cols:
  assumes "gs \<noteq> []"
  shows "transpose2 (map (\<lambda>g. map g cs) gs) = map (\<lambda>c. map (\<lambda>g. g c) gs) cs"
proof -
  from assms obtain g gs' where gs: "gs = g # gs'" by (cases gs) auto
  have w: "snd (shape2 (map (\<lambda>g. map g cs) gs)) = length cs"
    by (simp add: gs shape2_def)
  show ?thesis
    unfolding transpose2_def w
    by (rule nth_equalityI) (simp_all add: comp_def)
qed

lemma dot_cols:
  assumes "list_all (\<lambda>row. length row = length gs) A" and "gs \<noteq> []"
  shows "dot A (map (\<lambda>g. map g cs) gs)
         = Inr (map (\<lambda>row. map (\<lambda>c. sum_list (map2 (*) row (map (\<lambda>g. g c) gs))) cs) A)"
proof -
  from assms(2) obtain g gs' where gs: "gs = g # gs'" by (cases gs) auto
  have w: "snd (shape2 (map (\<lambda>g. map g cs) gs)) = length cs"
    by (simp add: gs shape2_def)
  have "map (\<lambda>j. sum_list (map2 (*) row (map (\<lambda>b. b ! j) (map (\<lambda>g. map g cs) gs)))) [0..<length cs]
      = map (\<lambda>c. sum_list (map2 (*) row (map (\<lambda>g. g c) gs))) cs" for row
    by (rule nth_equalityI) (simp_all add: comp_def)
  with assms(1) show ?thesis
    by (simp add: dot_def w)
qed

lemma dot_position:
  assumes "list_all (\<lambda>row. length row = 4) A"
  shows "dot A [map f1 cs, map f2 cs, map f3 cs, replicate (length (map f1 cs)) 1]
         = Inr (map (\<lambda>row. map (\<lambda>c. sum_list (map2 (*) row [f1 c, f2 c, f3 c, 1])) cs) A)"
proof -
  have eq: "[map f1 cs, map f2 cs, map f3 cs, replicate (length (map f1 cs)) 1]
        = map (\<lambda>g. map g cs) [f1, f2, f3, \<lambda>_. 1]"
    by (simp add: map_replicate_const)
  show ?thesis
    unfolding eq by (subst dot_cols) (use assms in \<open>simp_all add: numeral_eq_Suc\<close>)
qed

lemma transpose2_points:
  "transpose2 (take 3 (map (\<lambda>row. map (F row) cs) A) @
               [map c1 (map g1 cs), map c2 (map g2 cs), map c3 (map g3 cs)])
   = map (\<lambda>c. map (\<lambda>row. F row c) (take 3 A) @ [c1 (g1 c), c2 (g2 c), c3 (g3 c)]) cs"
proof -
  have eq: "take 3 (map (\<lambda>row. map (F row) cs) A) @
              [map c1 (map g1 cs), map c2 (map g2 cs), map c3 (map g3 cs)]
        = map (\<lambda>g. map g cs) (map F (take 3 A) @ [\<lambda>c. c1 (g1 c), \<lambda>c. c2 (g2 c), \<lambda>c. c3 (g3 c)])"
    by (simp add: take_map)
  show ?thesis
    unfolding eq by (subst transpose2_cols) simp_all
qed

lemma getitem2_3_3:
  assumes "is_matrix 3 3 K" "i < 3" "j < 3"
  shows "getitem2 K i j = Inr (K ! i ! j)"
  using assms by (simp add: getitem2_def is_matrix_def list_all_length)

lemma back_project_pixelwise:
  assumes d: "rectangular depth" and r: "rectangular rgb" and s: "shape2 rgb = shape2 depth"
    and K: "is_matrix 3 3 K" and P: "list_all (\<lambda>row. length row = 4) pose"
  shows "back_project rgb depth scale K pose
         = Inr (map (pixel_point rgb depth scale K pose) (valid_pixels depth scale))"
proof -
  define H W where "H = fst (shape2 depth)" and "W = snd (shape2 depth)"
  define zf where "zf = (\<lambda>p. rat_of_nat (unat (depth ! fst p ! snd p)) / scale)"
  have dep: "depth = tabulate2 H W (\<lambda>p. depth ! fst p ! snd p)"
    unfolding H_def W_def by (rule rectangular_tabulate2 [OF d])
  have col: "rgb = tabulate2 H W (\<lambda>p. rgb ! fst p ! snd p)"
    unfolding H_def W_def s [symmetric] by (rule rectangular_tabulate2 [OF r])
  have Z: "map (map (\<lambda>d. rat_of_nat (unat d) / scale)) depth = tabulate2 H W zf"
    by (subst dep) (simp add: map_map_tabulate2 zf_def)
  have chan: "ravel (map (map sel) rgb) = map (\<lambda>p. sel (rgb ! fst p ! snd p)) (pixel_coords H W)"
    for sel :: "pixel \<Rightarrow> 8 word"
    by (subst col) (simp add: map_map_tabulate2 ravel_tabulate2)
  have cs: "valid_pixels depth scale = filter (\<lambda>p. 0 < zf p) (pixel_coords H W)"
    by (simp add: valid_pixels_def zf_def H_def W_def)
  have K': "getitem2 K 0 2 = Inr (K ! 0 ! 2)" "getitem2 K 0 0 = Inr (K ! 0 ! 0)"
    "getitem2 K 1 2 = Inr (K ! 1 ! 2)" "getitem2 K 1 1 = Inr (K ! 1 ! 1)"
    by (simp_all add: getitem2_3_3 [OF K])
  have "back_project rgb depth scale K pose
    = Inr (map (\<lambda>c. map (\<lambda>row. sum_list (map2 (*) row
                 [(rat_of_nat (snd c) - K ! 0 ! 2) * zf c / (K ! 0 ! 0),
                  (rat_of_nat (fst c) - K ! 1 ! 2) * zf c / (K ! 1 ! 1), zf c, 1])) (take 3 pose) @
               [rat_of_nat (unat (case rgb ! fst c ! snd c of (c0, c1, c2) \<Rightarrow> c2)),
                rat_of_nat (unat (case rgb ! fst c ! snd c of (c0, c1, c2) \<Rightarrow> c1)),
                rat_of_nat (unat (case rgb ! fst c ! snd c of (c0, c1, c2) \<Rightarrow> c0))])
            (filter (\<lambda>p. 0 < zf p) (pixel_coords H W)))"
    unfolding back_project_def H_def [symmetric] W_def [symmetric] meshgrid_tabulate2 Z
    by (simp only: K' bind_res_def Let_def map_map_tabulate2
        map2_map2_tabulate2 ravel_tabulate2 chan prod.case sum.case bool_index_map
        dot_position [OF P] transpose2_points)
  also have "\<dots> = Inr (map (pixel_point rgb depth scale K pose) (valid_pixels depth scale))"
    unfolding cs
    by (simp add: pixel_point_def camera_point_def zf_def Let_def split: prod.split)
  finally show ?thesis .
qed

lemma eye_4: "eye 4 = [[1, 0, 0, 0], [0, 1, 0, 0], [0, 0, 1, 0], [0, 0, 0, 1]]"
  by (simp add: eye_def upt_rec)

lemma rat_unat_pos: "(0::rat) < rat_of_nat (unat d) \<longleftrightarrow> 0 < d"
  by (simp only: of_nat_0_less_iff unat_gt_0 word_greater_zero_iff)

lemma depth_positive_iff:
  assumes "0 < scale"
  shows "0 < rat_of_nat (unat d) / scale \<longleftrightarrow> 0 < d"
  using assms by (simp only: zero_less_divide_iff rat_unat_pos) auto

lemma valid_pixels_positive:
  assumes "0 < scale"
  shows "valid_pixels depth scale = positive_pixels depth"
  by (simp only: valid_pixels_def positive_pixels_def depth_positive_iff [OF assms] case_prod_unfold)

lemma pixel_coords_product: "pixel_coords h w = List.product [0..<h] [0..<w]"
  by (simp add: pixel_coords_def product_concat_map)

lemma pixel_coords_set:
  "set (pixel_coords h w) = {p. fst p < h \<and> snd p < w}"
  by (auto simp: pixel_coords_product)

lemma pixel_coords_distinct: "distinct (pixel_coords h w)"
  by (simp add: pixel_coords_product distinct_product)

lemma pixel_coords_length: "length (pixel_coords h w) = h * w"
  by (simp add: pixel_coords_product)

lemma pixel_coords_nth:
  assumes "v < h" "u < w"
  shows "pixel_coords h w ! (v * w + u) = (v, u)"
proof -
  from assms have "v * w + u < h * w"
    by (metis add.commute mult.commute less_le_trans mult_Suc_right mult_le_mono1 Suc_leI
        add_less_cancel_left)
  then have "List.product [0..<h] [0..<w] ! (v * w + u)
             = ([0..<h] ! ((v * w + u) div w), [0..<w] ! ((v * w + u) mod w))"
    by (subst product_nth) simp_all
  with assms show ?thesis
    by (simp add: pixel_coords_product)
qed

lemma d2pc_same_grid:
  assumes "shape2 rgb = shape2 depth"
  shows "depth_image_to_point_cloud cv2_resize rgb depth scale K pose rgb_size
         = back_project rgb depth scale K pose"
  using assms by (simp add: depth_image_to_point_cloud_def bind_res_def)

lemma is_matrix_4_4_rows:
  assumes "is_matrix 4 4 pose"
  shows "list_all (\<lambda>row. length row = 4) pose"
  using assms by (simp add: is_matrix_def)

lemma d2pc_pixelwise:
  assumes "rectangular rgb" and "rectangular depth" and "shape2 rgb = shape2 depth"
    and "is_matrix 3 3 K" and "is_matrix 4 4 pose"
  shows "depth_image_to_point_cloud cv2_resize rgb depth scale K pose rgb_size
         = Inr (map (pixel_point rgb depth scale K pose) (valid_pixels depth scale))"
  using assms
  by (simp only: d2pc_same_grid back_project_pixelwise is_matrix_4_4_rows)

lemma positive_pixels_set:
  "set (positive_pixels depth)
   = {p. fst p < fst (shape2 depth) \<and> snd p < snd (shape2 depth) \<and> 0 < depth ! fst p ! snd p}"
  by (auto simp: positive_pixels_def pixel_coords_set)

lemma positive_pixels_distinct: "distinct (positive_pixels depth)"
  by (simp add: positive_pixels_def pixel_coords_distinct)

lemma positive_pixels_count:
  assumes "rectangular depth"
  shows "length (positive_pixels depth) = length (filter (\<lambda>d. 0 < d) (ravel depth))"
proof -
  define H W where "H = fst (shape2 depth)" and "W = snd (shape2 depth)"
  have "depth = tabulate2 H W (\<lambda>p. depth ! fst p ! snd p)"
    unfolding H_def W_def by (rule rectangular_tabulate2 [OF assms])
  then have "ravel depth = map (\<lambda>p. depth ! fst p ! snd p) (pixel_coords H W)"
    by (metis ravel_tabulate2)
  then show ?thesis
    by (simp add: positive_pixels_def filter_map comp_def case_prod_unfold H_def W_def)
qed

lemma pixel_point_entries:
  assumes "is_matrix 4 4 pose"
  shows "pixel_point rgb depth scale K pose p =
     [sum_list (map2 (*) (pose ! 0) (camera_point depth scale K p)),
      sum_list (map2 (*) (pose ! 1) (camera_point depth scale K p)),
      sum_list (map2 (*) (pose ! 2) (camera_point depth scale K p)),
      rat_of_nat (unat (snd (snd (rgb ! fst p ! snd p)))),
      rat_of_nat (unat (fst (snd (rgb ! fst p ! snd p)))),
      rat_of_nat (unat (fst (rgb ! fst p ! snd p)))]"
proof -
  from assms obtain r0 r1 r2 r3 where "pose = [r0, r1, r2, r3]"
    by (auto simp: is_matrix_def numeral_eq_Suc length_Suc_conv)
  then show ?thesis
    by (simp add: pixel_point_def case_prod_unfold)
qed

lemma is_matrix_eye_4: "is_matrix 4 4 (eye 4)"
  by (simp add: eye_4 is_matrix_def)

lemma pixel_point_eye:
  "pixel_point rgb depth scale K (eye 4) p =
     take 3 (camera_point depth scale K p) @
     [rat_of_nat (unat (snd (snd (rgb ! fst p ! snd p)))),
      rat_of_nat (unat (fst (snd (rgb ! fst p ! snd p)))),
      rat_of_nat (unat (fst (rgb ! fst p ! snd p)))]"
  unfolding pixel_point_entries [OF is_matrix_eye_4]
  by (simp add: eye_4 camera_point_def Let_def)

lemma adjusted_is_matrix:
  assumes "is_matrix 3 3 K" and "H0 \<noteq> 0" and "W0 \<noteq> 0"
  shows "\<exists>K'. adjust_intrinsics_for_resolution K (H0, W0) (H1, W1) = Inr K' \<and> is_matrix 3 3 K'"
proof -
  from assms(1) obtain a b c d e f g h i where K: "K = [[a, b, c], [d, e, f], [g, h, i]]"
    by (rule is_matrix_3_3)
  show ?thesis
    unfolding K adjust_3_3 [OF assms(2,3)]
    by (simp add: is_matrix_def)
qed

lemma length_ravel_channel:
  "length (ravel (map (map sel) img)) = length (ravel img)"
  by (simp add: ravel_def length_concat comp_def)

lemma back_project_colour_mismatch:
  assumes d: "rectangular depth" and K: "is_matrix 3 3 K"
    and P: "list_all (\<lambda>row. length row = 4) pose"
    and n: "length (ravel rgb) \<noteq> length (ravel depth)"
  shows "back_project rgb depth scale K pose = Inl IndexError"
proof -
  define H W where "H = fst (shape2 depth)" and "W = snd (shape2 depth)"
  define zf where "zf = (\<lambda>p. rat_of_nat (unat (depth ! fst p ! snd p)) / scale)"
  have dep: "depth = tabulate2 H W (\<lambda>p. depth ! fst p ! snd p)"
    unfolding H_def W_def by (rule rectangular_tabulate2 [OF d])
  have Z: "map (map (\<lambda>d. rat_of_nat (unat d) / scale)) depth = tabulate2 H W zf"
    by (subst dep) (simp add: map_map_tabulate2 zf_def)
  have "length (ravel depth) = length (pixel_coords H W)"
    by (subst dep) (simp add: ravel_tabulate2)
  with n have chan: "bool_index (ravel (map (map sel) rgb)) (map (\<lambda>z. 0 < z) (map zf (pixel_coords H W)))
              = Inl IndexError" for sel :: "pixel \<Rightarrow> 8 word"
    by (simp add: bool_index_def length_ravel_channel)
  have K': "getitem2 K 0 2 = Inr (K ! 0 ! 2)" "getitem2 K 0 0 = Inr (K ! 0 ! 0)"
    "getitem2 K 1 2 = Inr (K ! 1 ! 2)" "getitem2 K 1 1 = Inr (K ! 1 ! 1)"
    by (simp_all add: getitem2_3_3 [OF K])
  show ?thesis
    unfolding back_project_def H_def [symmetric] W_def [symmetric] meshgrid_tabulate2 Z
    by (simp only: K' bind_res_def Let_def map_map_tabulate2
        map2_map2_tabulate2 ravel_tabulate2 chan prod.case sum.case bool_index_map
        dot_position [OF P])
qed

lemma scenario_facts:
  "rectangular [[(255, 255, 255), (255, 255, 255)], [(255, 255, 255), (10, 20, 30)] :: pixel list]"
  "rectangular [[0, 1000], [2000, 3000 :: 16 word]]"
  "shape2 [[(255, 255, 255), (255, 255, 255)], [(255, 255, 255), (10, 20, 30)] :: pixel list]
   = shape2 [[0, 1000], [2000, 3000 :: 16 word]]"
  "is_matrix 3 3 [[2, 0, 1], [0, 4, 1], [0, 0, 1 :: rat]]"
  "positive_pixels [[0, 1000], [2000, 3000]] = [(0, 1), (1, 0), (1, 1)]"
  by (simp_all add: rectangular_def shape2_def is_matrix_def positive_pixels_def pixel_coords_def
      upt_rec)

subsection \<open>Claims about the point list\<close>

text \<open>
  C2. For every rgb/depth pair on the same grid, with a positive scale factor, a 3x3
  intrinsic matrix and a 4x4 pose, the call returns one point for each pixel of strictly
  positive stored depth and none for a pixel of depth 0: the output is the image of the
  list of positive-depth pixels, that list has no repetition and holds exactly the pixels
  of the grid with positive depth, and the number of points is the number of strictly
  positive entries of the depth image.
\<close>

theorem point_per_positive_pixel:
  assumes "rectangular rgb" and "rectangular depth" and "shape2 rgb = shape2 depth"
    and "0 < scale" and "is_matrix 3 3 K" and "is_matrix 4 4 pose"
  shows "\<exists>pts. depth_image_to_point_cloud cv2_resize rgb depth scale K pose rgb_size = Inr pts
           \<and> pts = map (pixel_point rgb depth scale K pose) (positive_pixels depth)
           \<and> distinct (positive_pixels depth)
           \<and> set (positive_pixels depth)
               = {p. fst p < fst (shape2 depth) \<and> snd p < snd (shape2 depth)
                     \<and> 0 < depth ! fst p ! snd p}
           \<and> length pts = length (filter (\<lambda>d. 0 < d) (ravel depth))"
  using assms
  by (simp add: d2pc_pixelwise valid_pixels_positive positive_pixels_set
      positive_pixels_distinct positive_pixels_count)

theorem point_per_positive_pixel_witness:
  "depth_image_to_point_cloud resize_constant
     [[(255, 255, 255), (255, 255, 255)], [(255, 255, 255), (10, 20, 30)]]
     [[0, 1000], [2000, 3000]] 1000 [[2, 0, 1], [0, 4, 1], [0, 0, 1]] (eye 4) None
   = Inr [[0, -1/4, 1, 255, 255, 255], [-1, 0, 2, 255, 255, 255], [0, 0, 3, 30, 20, 10]]"
proof -
  have "(0 :: rat) < 1000"
    by simp
  from point_per_positive_pixel [OF scenario_facts(1-3) this scenario_facts(4) is_matrix_eye_4,
      of resize_constant None]
  show ?thesis
    by (simp add: scenario_facts(5) pixel_point_eye camera_point_def)
qed

text \<open>
  C7. The points are listed in the row-major scan order of the surviving pixels: the
  output is the image of the scan \<open>pixel_coords\<close> restricted to the pixels with
  \<open>Z > 0\<close>, element by element (nothing is sorted or merged), and the scan holds pixel
  \<open>(v, u)\<close> at position \<open>v * W + u\<close>, that is row 0 from left to right, then row 1, and
  so on.
\<close>

theorem points_in_scan_order:
  assumes "rectangular rgb" and "rectangular depth" and "shape2 rgb = shape2 depth"
    and "scale \<noteq> 0" and "is_matrix 3 3 K" and "is_matrix 4 4 pose"
  shows "\<exists>pts. depth_image_to_point_cloud cv2_resize rgb depth scale K pose rgb_size = Inr pts
           \<and> pts = map (pixel_point rgb depth scale K pose)
                     (filter (\<lambda>p. 0 < rat_of_nat (unat (depth ! fst p ! snd p)) / scale)
                        (pixel_coords (fst (shape2 depth)) (snd (shape2 depth))))
           \<and> length (pixel_coords (fst (shape2 depth)) (snd (shape2 depth)))
               = fst (shape2 depth) * snd (shape2 depth)
           \<and> (\<forall>v < fst (shape2 depth). \<forall>u < snd (shape2 depth).
                 pixel_coords (fst (shape2 depth)) (snd (shape2 depth)) ! (v * snd (shape2 depth) + u)
                 = (v, u))"
  using assms
  by (simp add: d2pc_pixelwise valid_pixels_def pixel_coords_length pixel_coords_nth)

theorem points_in_scan_order_witness:
  "depth_image_to_point_cloud resize_constant
     [[(255, 255, 255), (255, 255, 255)], [(255, 255, 255), (10, 20, 30)]]
     [[0, 1000], [2000, 3000]] 500 [[2, 0, 1], [0, 4, 1], [0, 0, 1]] (eye 4) None
   = Inr [[0, -1/2, 2, 255, 255, 255], [-2, 0, 4, 255, 255, 255], [0, 0, 6, 30, 20, 10]]
   \<and> pixel_coords 2 2 ! (1 * 2 + 0) = (1, 0)"
proof -
  have "(500 :: rat) \<noteq> 0"
    by simp
  from points_in_scan_order [OF scenario_facts(1-3) this scenario_facts(4) is_matrix_eye_4,
      of resize_constant None]
  show ?thesis
    by (simp add: shape2_def pixel_coords_def upt_rec pixel_point_eye camera_point_def)
qed

text \<open>
  C3. With the identity pose, nonzero focal lengths and a positive scale factor, the point
  \<open>(X, Y, Z)\<close> emitted for the k-th positive-depth pixel \<open>(v, u)\<close> satisfies
  \<open>X * fx / Z + cx = u\<close> and \<open>Y * fy / Z + cy = v\<close>, in rational arithmetic.
\<close>

theorem back_projection_invertible:
  assumes "rectangular rgb" and "rectangular depth" and "shape2 rgb = shape2 depth"
    and "0 < scale" and "is_matrix 3 3 K" and "K ! 0 ! 0 \<noteq> 0" and "K ! 1 ! 1 \<noteq> 0"
    and "k < length (positive_pixels depth)"
  shows "\<exists>pts. depth_image_to_point_cloud cv2_resize rgb depth scale K (eye 4) rgb_size = Inr pts
           \<and> k < length pts
           \<and> pts ! k ! 0 * (K ! 0 ! 0) / (pts ! k ! 2) + K ! 0 ! 2
               = rat_of_nat (snd (positive_pixels depth ! k))
           \<and> pts ! k ! 1 * (K ! 1 ! 1) / (pts ! k ! 2) + K ! 1 ! 2
               = rat_of_nat (fst (positive_pixels depth ! k))"
proof -
  define p where "p = positive_pixels depth ! k"
  define Z where "Z = rat_of_nat (unat (depth ! fst p ! snd p)) / scale"
  from assms(8) have "p \<in> set (positive_pixels depth)"
    by (simp add: p_def)
  then have "0 < depth ! fst p ! snd p"
    by (simp add: positive_pixels_set)
  then have "0 < Z"
    unfolding Z_def by (simp only: depth_positive_iff [OF assms(4)])
  then have Z: "Z \<noteq> 0"
    by simp
  have pt: "pixel_point rgb depth scale K (eye 4) p ! 0 = (rat_of_nat (snd p) - K ! 0 ! 2) * Z / (K ! 0 ! 0)"
    "pixel_point rgb depth scale K (eye 4) p ! 1 = (rat_of_nat (fst p) - K ! 1 ! 2) * Z / (K ! 1 ! 1)"
    "pixel_point rgb depth scale K (eye 4) p ! 2 = Z"
    by (simp_all add: pixel_point_eye camera_point_def Let_def Z_def)
  define pts where "pts = map (pixel_point rgb depth scale K (eye 4)) (positive_pixels depth)"
  have res: "depth_image_to_point_cloud cv2_resize rgb depth scale K (eye 4) rgb_size = Inr pts"
    using assms(1-5) by (simp add: pts_def d2pc_pixelwise is_matrix_eye_4 valid_pixels_positive)
  have k: "k < length pts"
    using assms(8) by (simp add: pts_def)
  have pk: "pts ! k = pixel_point rgb depth scale K (eye 4) p"
    using assms(8) by (simp add: pts_def p_def)
  have "pts ! k ! 0 * (K ! 0 ! 0) / (pts ! k ! 2) + K ! 0 ! 2 = rat_of_nat (snd p)"
    unfolding pk pt using Z assms(6) by simp
  moreover have "pts ! k ! 1 * (K ! 1 ! 1) / (pts ! k ! 2) + K ! 1 ! 2 = rat_of_nat (fst p)"
    unfolding pk pt using Z assms(7) by simp
  ultimately show ?thesis
    using res k unfolding p_def by blast
qed

theorem back_projection_invertible_witness:
  "\<exists>pts. depth_image_to_point_cloud resize_constant
       [[(255, 255, 255), (255, 255, 255)], [(255, 255, 255), (10, 20, 30)]]
       [[0, 1000], [2000, 3000]] 1000 [[2, 0, 1], [0, 4, 1], [0, 0, 1]] (eye 4) None = Inr pts
     \<and> pts ! 1 ! 0 * 2 / (pts ! 1 ! 2) + 1 = 0
     \<and> pts ! 1 ! 1 * 4 / (pts ! 1 ! 2) + 1 = 1"
proof -
  have "(0 :: rat) < 1000" "[[2, 0, 1], [0, 4, 1], [0, 0, 1 :: rat]] ! 0 ! 0 \<noteq> 0"
    "[[2, 0, 1], [0, 4, 1], [0, 0, 1 :: rat]] ! 1 ! 1 \<noteq> 0"
    "1 < length (positive_pixels [[0, 1000], [2000, 3000]])"
    by (simp_all add: scenario_facts(5))
  from back_projection_invertible [OF scenario_facts(1-3) this(1) scenario_facts(4) this(2-4),
      of resize_constant None]
  show ?thesis
    by (auto simp: scenario_facts(5))
qed

text \<open>
  C6. When the pixel of the k-th positive-depth entry stores the channels
  \<open>(10, 20, 30)\<close>, read by the source as blue, green, red, the k-th point has six entries
  and carries 30, 20, 10 after its three coordinates: red, then green, then blue.
\<close>

theorem colour_channels_reordered:
  assumes "rectangular rgb" and "rectangular depth" and "shape2 rgb = shape2 depth"
    and "0 < scale" and "is_matrix 3 3 K" and "is_matrix 4 4 pose"
    and "k < length (positive_pixels depth)"
    and "rgb ! fst (positive_pixels depth ! k) ! snd (positive_pixels depth ! k) = (10, 20, 30)"
  shows "\<exists>pts. depth_image_to_point_cloud cv2_resize rgb depth scale K pose rgb_size = Inr pts
           \<and> k < length pts
           \<and> length (pts ! k) = 6
           \<and> pts ! k ! 3 = 30 \<and> pts ! k ! 4 = 20 \<and> pts ! k ! 5 = 10"
  using assms
  by (simp add: d2pc_pixelwise valid_pixels_positive pixel_point_entries)

theorem colour_channels_reordered_witness:
  "\<exists>pts. depth_image_to_point_cloud resize_constant
       [[(255, 255, 255), (255, 255, 255)], [(255, 255, 255), (10, 20, 30)]]
       [[0, 1000], [2000, 3000]] 1000 [[2, 0, 1], [0, 4, 1], [0, 0, 1]] (eye 4) None = Inr pts
     \<and> length (pts ! 2) = 6 \<and> pts ! 2 ! 3 = 30 \<and> pts ! 2 ! 4 = 20 \<and> pts ! 2 ! 5 = 10"
proof -
  have "(0 :: rat) < 1000" "2 < length (positive_pixels [[0, 1000], [2000, 3000]])"
    "[[(255, 255, 255), (255, 255, 255)], [(255, 255, 255), (10, 20, 30)] :: pixel list]
       ! fst (positive_pixels [[0, 1000], [2000, 3000]] ! 2)
       ! snd (positive_pixels [[0, 1000], [2000, 3000]] ! 2) = (10, 20, 30)"
    by (simp_all add: scenario_facts(5))
  from colour_channels_reordered [OF scenario_facts(1-3) this(1) scenario_facts(4)
      is_matrix_eye_4 this(2,3), of resize_constant None]
  show ?thesis
    by blast
qed

subsection \<open>Images on different grids\<close>

text \<open>
  C1 as stated does not hold. The colour image below has one pixel and the depth image
  has two, and \<^verbatim>\<open>rgb_size\<close> is given: the call does not reject, it rescales the
  intrinsics (\<open>fx\<close> and \<open>cx\<close> are doubled), resizes the colour image and returns two
  points.
\<close>

theorem mismatched_grids_not_rejected:
  "shape2 [[(10, 20, 30)] :: pixel list] \<noteq> shape2 [[1000, 2000 :: 16 word]]
   \<and> depth_image_to_point_cloud resize_constant [[(10, 20, 30)]] [[1000, 2000]] 1000
       [[2, 0, 1], [0, 4, 1], [0, 0, 1]] (eye 4) (Some (1, 1))
     = Inr [[-1/2, -1/4, 1, 30, 20, 10], [-1/2, -1/2, 2, 30, 20, 10]]"
  by (simp add: depth_image_to_point_cloud_def back_project_def shape2_def meshgrid_def
      bind_res_def getitem2_def ravel_def bool_index_def dot_def transpose2_def
      adjust_intrinsics_for_resolution_def truediv_def imul_item_def resize_constant_def
      eye_4)

text \<open>
  C1, amended. On grids that differ the call does not reject on the dimensions. When
  \<^verbatim>\<open>rgb_size\<close> is given (with nonzero entries) and the resize returns an image on the
  depth grid, the result (for a nonzero scale) is the back-projection of the depth image with the intrinsics
  adjusted from \<^verbatim>\<open>rgb_size\<close> to the depth grid and with the colours of the resized
  image. When \<^verbatim>\<open>rgb_size\<close> is \<open>None\<close> and the two images hold different numbers of
  pixels, the colour lookup raises \<^verbatim>\<open>IndexError\<close> and no point is returned.
\<close>

theorem mismatched_grids_behaviour:
  assumes "rectangular depth" and "is_matrix 3 3 K" and "is_matrix 4 4 pose"
    and "shape2 rgb \<noteq> shape2 depth" and "scale \<noteq> 0"
  shows "(\<forall>H0 W0 rgb'.
            H0 \<noteq> 0 \<and> W0 \<noteq> 0
            \<and> cv2_resize rgb (snd (shape2 depth), fst (shape2 depth)) = Inr rgb'
            \<and> rectangular rgb' \<and> shape2 rgb' = shape2 depth
            \<longrightarrow> (\<exists>K'. adjust_intrinsics_for_resolution K (H0, W0)
                          (int (fst (shape2 depth)), int (snd (shape2 depth))) = Inr K'
                     \<and> depth_image_to_point_cloud cv2_resize rgb depth scale K pose (Some (H0, W0))
                         = Inr (map (pixel_point rgb' depth scale K' pose)
                                  (valid_pixels depth scale))))
       \<and> (length (ravel rgb) \<noteq> length (ravel depth)
            \<longrightarrow> depth_image_to_point_cloud cv2_resize rgb depth scale K pose None
                  = Inl IndexError)"
proof (intro conjI allI impI)
  fix H0 W0 :: int and rgb'
  assume a: "H0 \<noteq> 0 \<and> W0 \<noteq> 0
            \<and> cv2_resize rgb (snd (shape2 depth), fst (shape2 depth)) = Inr rgb'
            \<and> rectangular rgb' \<and> shape2 rgb' = shape2 depth"
  from a have "H0 \<noteq> 0" "W0 \<noteq> 0" by simp_all
  from adjusted_is_matrix [OF assms(2) this]
  obtain K' where K': "adjust_intrinsics_for_resolution K (H0, W0)
                          (int (fst (shape2 depth)), int (snd (shape2 depth))) = Inr K'"
    and m: "is_matrix 3 3 K'"
    by blast
  have "depth_image_to_point_cloud cv2_resize rgb depth scale K pose (Some (H0, W0))
        = back_project rgb' depth scale K' pose"
    using assms(4) a K' by (simp add: depth_image_to_point_cloud_def bind_res_def)
  also have "\<dots> = Inr (map (pixel_point rgb' depth scale K' pose) (valid_pixels depth scale))"
    using a assms(1,3) m by (simp add: back_project_pixelwise is_matrix_4_4_rows)
  finally show "\<exists>K'. adjust_intrinsics_for_resolution K (H0, W0)
                          (int (fst (shape2 depth)), int (snd (shape2 depth))) = Inr K'
                     \<and> depth_image_to_point_cloud cv2_resize rgb depth scale K pose (Some (H0, W0))
                         = Inr (map (pixel_point rgb' depth scale K' pose)
                                  (valid_pixels depth scale))"
    using K' by blast
next
  assume "length (ravel rgb) \<noteq> length (ravel depth)"
  with assms(1-3) show "depth_image_to_point_cloud cv2_resize rgb depth scale K pose None
                  = Inl IndexError"
    by (simp add: depth_image_to_point_cloud_def bind_res_def back_project_colour_mismatch
        is_matrix_4_4_rows)
qed

theorem mismatched_grids_behaviour_witness:
  "depth_image_to_point_cloud resize_constant [[(10, 20, 30)]] [[1000, 2000]] 1000
       [[2, 0, 1], [0, 4, 1], [0, 0, 1]] (eye 4) (Some (1, 1))
     = Inr [[-1/2, -1/4, 1, 30, 20, 10], [-1/2, -1/2, 2, 30, 20, 10]]
   \<and> depth_image_to_point_cloud resize_constant [[(10, 20, 30)]] [[1000, 2000]] 1000
       [[2, 0, 1], [0, 4, 1], [0, 0, 1]] (eye 4) None
     = Inl IndexError"
proof -
  have h: "rectangular [[1000, 2000 :: 16 word]]"
    "shape2 [[(10, 20, 30)] :: pixel list] \<noteq> shape2 [[1000, 2000 :: 16 word]]"
    by (simp_all add: rectangular_def shape2_def)
  have r: "(1 :: int) \<noteq> 0 \<and> (1 :: int) \<noteq> 0
      \<and> resize_constant [[(10, 20, 30)]]
           (snd (shape2 [[1000, 2000 :: 16 word]]), fst (shape2 [[1000, 2000 :: 16 word]]))
          = Inr [[(10, 20, 30), (10, 20, 30)]]
      \<and> rectangular [[(10, 20, 30), (10, 20, 30)] :: pixel list]
      \<and> shape2 [[(10, 20, 30), (10, 20, 30)] :: pixel list] = shape2 [[1000, 2000 :: 16 word]]"
    by (simp add: resize_constant_def rectangular_def shape2_def)
  have n: "length (ravel [[(10, 20, 30)] :: pixel list]) \<noteq> length (ravel [[1000, 2000 :: 16 word]])"
    by (simp add: ravel_def)
  have k: "adjust_intrinsics_for_resolution [[2, 0, 1], [0, 4, 1], [0, 0, 1]] (1, 1)
             (int (fst (shape2 [[1000, 2000 :: 16 word]])), int (snd (shape2 [[1000, 2000 :: 16 word]])))
           = Inr [[4, 0, 2], [0, 4, 1], [0, 0, 1]]"
    by (simp add: shape2_def adjust_3_3)
  have v: "valid_pixels [[1000, 2000]] 1000 = [(0, 0), (0, 1)]"
    by (simp add: valid_pixels_def shape2_def pixel_coords_def upt_rec)
  have s: "(1000 :: rat) \<noteq> 0"
    by simp
  from mismatched_grids_behaviour [OF h(1) scenario_facts(4) is_matrix_eye_4 h(2) s,
      where cv2_resize = resize_constant]
  have a: "\<And>H0 W0 rgb'. H0 \<noteq> 0 \<and> W0 \<noteq> 0
            \<and> resize_constant [[(10, 20, 30)]]
                 (snd (shape2 [[1000, 2000 :: 16 word]]), fst (shape2 [[1000, 2000 :: 16 word]]))
                = Inr rgb'
            \<and> rectangular rgb' \<and> shape2 rgb' = shape2 [[1000, 2000 :: 16 word]]
            \<Longrightarrow> \<exists>K'. adjust_intrinsics_for_resolution [[2, 0, 1], [0, 4, 1], [0, 0, 1]] (H0, W0)
                       (int (fst (shape2 [[1000, 2000 :: 16 word]])),
                        int (snd (shape2 [[1000, 2000 :: 16 word]]))) = Inr K'
                  \<and> depth_image_to_point_cloud resize_constant [[(10, 20, 30)]] [[1000, 2000]]
                      1000 [[2, 0, 1], [0, 4, 1], [0, 0, 1]] (eye 4) (Some (H0, W0))
                    = Inr (map (pixel_point rgb' [[1000, 2000]] 1000 K' (eye 4))
                             (valid_pixels [[1000, 2000]] 1000))"
    and b: "depth_image_to_point_cloud resize_constant [[(10, 20, 30)]] [[1000, 2000]] 1000
       [[2, 0, 1], [0, 4, 1], [0, 0, 1]] (eye 4) None = Inl IndexError"
    using n by blast+
  from a [OF r] k
  have "depth_image_to_point_cloud resize_constant [[(10, 20, 30)]] [[1000, 2000]]
          1000 [[2, 0, 1], [0, 4, 1], [0, 0, 1]] (eye 4) (Some (1, 1))
        = Inr (map (pixel_point [[(10, 20, 30), (10, 20, 30)]] [[1000, 2000]] 1000
                      [[4, 0, 2], [0, 4, 1], [0, 0, 1]] (eye 4))
                 (valid_pixels [[1000, 2000]] 1000))"
    by auto
  with b show ?thesis
    by (simp add: v pixel_point_eye camera_point_def)
qed

section \<open>Properties of the serialisation\<close>

lemma digit_char_is_digit: "d < 10 \<Longrightarrow> is_digit (digit_char d)"
proof -
  assume "d < 10"
  then have "nat d < length ''0123456789''"
    by simp
  then have "''0123456789'' ! nat d \<in> set ''0123456789''"
    by (rule nth_mem)
  then show ?thesis
    by (simp only: digit_char_def is_digit_def)
qed

lemma decimal_digits: "list_all is_digit (decimal n)"
proof (induction n rule: decimal.induct)
  case (1 n)
  show ?case
  proof (cases "n < 10")
    case True
    then show ?thesis
      by (subst decimal.simps) (simp add: digit_char_is_digit)
  next
    case False
    with 1 show ?thesis
      by (subst decimal.simps) (simp add: digit_char_is_digit)
  qed
qed

lemma decimal_nonempty: "decimal n \<noteq> []"
  by (subst decimal.simps) simp

lemma decimal_length:
  "n < 10 ^ k \<Longrightarrow> 0 < k \<Longrightarrow> length (decimal n) \<le> k"
proof (induction n arbitrary: k rule: decimal.induct)
  case (1 n)
  show ?case
  proof (cases "n < 10")
    case True
    with 1(3) show ?thesis
      by (subst decimal.simps) simp
  next
    case False
    with 1(2) have "1 < k"
      by (cases "k = 1") (use 1(3) in auto)
    then obtain j where k: "k = Suc j" and j: "0 < j"
      by (cases k) auto
    from 1(2) have "n < 10 * 10 ^ j"
      by (simp add: k)
    then have "n div 10 < 10 ^ j"
      by linarith
    from 1(1) [OF False this j] False show ?thesis
      by (subst decimal.simps) (simp add: k)
  qed
qed

lemma is_digit_field_char: "is_digit c \<Longrightarrow> field_char c"
  by (simp add: field_char_def)

lemma is_digit_zero: "is_digit CHR ''0''"
  by (simp add: is_digit_def)

lemma not_digit_dot: "\<not> is_digit CHR ''.''"
  by (simp add: is_digit_def)

lemma not_digit_minus: "\<not> is_digit CHR ''-''"
  by (simp add: is_digit_def)

lemma not_field_char_space: "\<not> field_char CHR '' ''"
  by (simp add: field_char_def is_digit_def)

lemma not_field_char_newline: "\<not> field_char CHR ''\<newline>''"
  by (simp add: field_char_def is_digit_def)

lemma field_char_minus: "field_char CHR ''-''"
  by (simp add: field_char_def)

lemma field_char_dot: "field_char CHR ''.''"
  by (simp add: field_char_def)

lemma digits_field_chars: "list_all is_digit s \<Longrightarrow> list_all field_char s"
  by (simp add: list_all_iff is_digit_field_char)

lemma decimal_field_chars: "list_all field_char (decimal n)"
  by (rule digits_field_chars) (rule decimal_digits)

lemma zfill_digits: "list_all is_digit s \<Longrightarrow> list_all is_digit (zfill w s)"
  by (auto simp: zfill_def list_all_iff is_digit_zero)

lemma zfill_length: "length s \<le> w \<Longrightarrow> length (zfill w s) = w"
  by (simp add: zfill_def)

lemma format_f_field_chars: "list_all field_char (format_f q)"
proof -
  have "list_all field_char (zfill 6 (decimal n))" for n
    by (rule digits_field_chars) (rule zfill_digits [OF decimal_digits])
  then show ?thesis
    by (simp add: format_f_def Let_def decimal_field_chars field_char_minus field_char_dot)
qed

lemma show_int_field_chars: "list_all field_char (show_int i)"
  by (simp add: show_int_def decimal_field_chars field_char_minus)

lemma format_d_field_chars: "list_all field_char (format_d i)"
  by (simp add: format_d_def show_int_field_chars)

lemma field_char_not_blank:
  assumes "list_all field_char s"
  shows "CHR '' '' \<notin> set s" and "CHR ''\<newline>'' \<notin> set s"
  using assms not_field_char_space not_field_char_newline
  by (auto simp: list_all_iff)

lemma format_f_nonempty: "format_f q \<noteq> []"
  by (simp add: format_f_def Let_def decimal_nonempty)

lemma takeWhile_digits:
  assumes "list_all is_digit ds" and "\<not> is_digit c"
  shows "takeWhile is_digit (ds @ c # rest) = ds" and "dropWhile is_digit (ds @ c # rest) = c # rest"
  using assms by (simp_all add: list_all_iff takeWhile_append2 dropWhile_append2)

lemma is_float_field_format_f: "is_float_field (format_f q)"
proof -
  define n where "n = round_half_even (\<bar>q\<bar> * 1000000)"
  define ip where "ip = decimal (n div 1000000)"
  define fp where "fp = zfill 6 (decimal (n mod 1000000))"
  have ip: "list_all is_digit ip" "ip \<noteq> []"
    by (simp_all add: ip_def decimal_digits decimal_nonempty)
  have "length (decimal (n mod 1000000)) \<le> 6"
    by (rule decimal_length) simp_all
  then have fp: "list_all is_digit fp" "length fp = 6"
    by (simp_all add: fp_def zfill_digits decimal_digits zfill_length)
  note dot = not_digit_dot and minus = not_digit_minus
  from ip obtain d ds where ds: "ip = d # ds" and d: "is_digit d"
    by (cases ip) auto
  with minus have dm: "d \<noteq> CHR ''-''"
    by auto
  have f: "format_f q = (if q < 0 then ''-'' else []) @ ip @ CHR ''.'' # fp"
    by (simp add: format_f_def Let_def n_def ip_def fp_def)
  show ?thesis
  proof (cases "q < 0")
    case True
    then show ?thesis
      unfolding f is_float_field_def
      using ip fp by (simp add: takeWhile_digits [OF ip(1) dot] Let_def)
  next
    case False
    then have "format_f q = d # (ds @ CHR ''.'' # fp)"
      by (simp add: f ds)
    then show ?thesis
      unfolding is_float_field_def
      using ip fp dm takeWhile_digits [OF ip(1) dot, of fp]
      by (simp add: ds Let_def)
  qed
qed

lemma split_on_append:
  "c \<notin> set a \<Longrightarrow> split_on c (a @ c # rest) = a # split_on c rest"
  by (induction a) auto

lemma split_on_none:
  "c \<notin> set a \<Longrightarrow> split_on c a = [a]"
  by (induction a) auto

lemma py_format_line:
  "py_format ''%f %f %f %d %d %d 0\<newline>''
     [ArgFloat a, ArgFloat b, ArgFloat c, ArgFloat d, ArgFloat e, ArgFloat f]
   = Inr (point_line [a, b, c, d, e, f] @ ''\<newline>'')"
  by (simp add: convert_def bind_res_def point_line_def)

lemma py_format_template:
  "py_format ply_template [ArgInt n, ArgStr body]
   = Inr (''ply\<newline>    format ascii 1.0\<newline>    element vertex '' @ show_int n @
          ''\<newline>    property float x\<newline>    property float y\<newline>    property float z\<newline>    property uchar blue\<newline>    property uchar green\<newline>    property uchar red\<newline>    property uchar alpha\<newline>    end_header\<newline>    '' @
          body @ ''\<newline>    '')"
  by (simp add: ply_template_def convert_def bind_res_def format_d_def)

lemma point_line_cong:
  assumes "6 \<le> length p"
  shows "point_line [p ! 0, p ! 1, p ! 2, p ! 3, p ! 4, p ! 5] = point_line p"
  using assms by (auto simp: point_line_def)

lemma format_points_lines:
  assumes "\<forall>p \<in> set points. 6 \<le> length p"
  shows "format_points points = Inr (map (\<lambda>p. point_line p @ ''\<newline>'') points)"
  using assms
proof (induction points)
  case Nil
  then show ?case by simp
next
  case (Cons p ps)
  then have "6 \<le> length p"
    by simp
  then have g: "getitem1 p 0 = Inr (p ! 0)" "getitem1 p 1 = Inr (p ! 1)" "getitem1 p 2 = Inr (p ! 2)"
    "getitem1 p 3 = Inr (p ! 3)" "getitem1 p 4 = Inr (p ! 4)" "getitem1 p 5 = Inr (p ! 5)"
    by (auto simp: getitem1_def)
  from Cons have "format_points ps = Inr (map (\<lambda>p. point_line p @ ''\<newline>'') ps)"
    by simp
  then show ?case
    by (simp only: format_points.simps g bind_res_def sum.case py_format_line
        point_line_cong [OF \<open>6 \<le> length p\<close>] list.map)
qed

lemma split_on_lines:
  assumes "\<forall>l \<in> set ls. c \<notin> set l"
  shows "split_on c (concat (map (\<lambda>l. l @ [c]) ls) @ rest) = ls @ split_on c rest"
  using assms
proof (induction ls)
  case Nil
  then show ?case by simp
next
  case (Cons l ls)
  then have "c \<notin> set l"
    by simp
  from split_on_append [OF this, of "concat (map (\<lambda>l. l @ [c]) ls) @ rest"] Cons
  show ?case
    by simp
qed

lemma point_line_head:
  "\<exists>c cs. point_line p = c # cs \<and> c \<noteq> CHR '' ''"
proof -
  obtain c cs where f: "format_f (p ! 0) = c # cs"
    using format_f_nonempty [of "p ! 0"] by (cases "format_f (p ! 0)") auto
  with format_f_field_chars [of "p ! 0"] have "field_char c"
    by simp
  with not_field_char_space have "c \<noteq> CHR '' ''"
    by auto
  with f show ?thesis
    by (simp add: point_line_def)
qed

lemma lstrip_point_line:
  shows "lstrip (point_line p) = point_line p"
    and "lstrip (''    '' @ point_line p) = point_line p"
    and "point_line p \<noteq> []"
  using point_line_head [of p] by (auto simp: lstrip_def)

lemma point_line_no_newline: "CHR ''\<newline>'' \<notin> set (point_line p)"
  using field_char_not_blank(2) [OF format_f_field_chars]
    field_char_not_blank(2) [OF format_d_field_chars]
  by (simp add: point_line_def)

lemma split_point_line: "split_on CHR '' '' (point_line p) = point_fields p"
proof -
  note f = field_char_not_blank(1) [OF format_f_field_chars]
  note d = field_char_not_blank(1) [OF format_d_field_chars]
  have "point_line p = concat (map (\<lambda>l. l @ '' '')
          [format_f (p ! 0), format_f (p ! 1), format_f (p ! 2),
           format_d (truncate (p ! 3)), format_d (truncate (p ! 4)),
           format_d (truncate (p ! 5))]) @ ''0''"
    by (simp add: point_line_def)
  also have "split_on CHR '' '' \<dots> = point_fields p"
    by (subst split_on_lines) (simp_all add: f d point_fields_def)
  finally show ?thesis .
qed

lemma show_int_no_newline: "CHR ''\<newline>'' \<notin> set (show_int n)"
  by (rule field_char_not_blank(2) [OF show_int_field_chars])

lemma ply_header_no_newline: "\<forall>l \<in> set (ply_header n). CHR ''\<newline>'' \<notin> set l"
  by (simp add: ply_header_def show_int_no_newline)

lemma template_as_lines:
  "''ply\<newline>    format ascii 1.0\<newline>    element vertex '' @ show_int n @
   ''\<newline>    property float x\<newline>    property float y\<newline>    property float z\<newline>    property uchar blue\<newline>    property uchar green\<newline>    property uchar red\<newline>    property uchar alpha\<newline>    end_header\<newline>    '' @
   body @ ''\<newline>    ''
   = concat (map (\<lambda>l. l @ ''\<newline>'') (ply_header n)) @ (''    '' @ body @ ''\<newline>    '')"
  by (simp add: ply_header_def)

lemma body_as_lines:
  "''    '' @ concat (map (\<lambda>p. point_line p @ ''\<newline>'') points) @ ''\<newline>    ''
   = concat (map (\<lambda>l. l @ ''\<newline>'')
       (case points of [] \<Rightarrow> [''    ''] | p # ps \<Rightarrow> (''    '' @ point_line p) # map point_line ps @ [[]]))
     @ ''    ''"
  by (cases points) (simp_all add: comp_def)

lemma body_lines_no_newline:
  "\<forall>l \<in> set (case points of [] \<Rightarrow> [''    '']
                | p # ps \<Rightarrow> (''    '' @ point_line p) # map point_line ps @ [[]]).
     CHR ''\<newline>'' \<notin> set l"
  by (cases points) (auto simp: point_line_no_newline)

lemma split_text:
  "split_on CHR ''\<newline>''
     (concat (map (\<lambda>l. l @ ''\<newline>'') (ply_header n)) @
      (''    '' @ concat (map (\<lambda>p. point_line p @ ''\<newline>'') points) @ ''\<newline>    ''))
   = ply_header n @
     (case points of [] \<Rightarrow> [''    ''] | p # ps \<Rightarrow> (''    '' @ point_line p) # map point_line ps @ [[]])
     @ [''    '']"
  unfolding body_as_lines
  by (simp only: split_on_lines [OF ply_header_no_newline] split_on_lines [OF body_lines_no_newline])
     (simp add: split_on_none)

lemma lstrip_blank: "lstrip ''    '' = []" "lstrip [] = []"
  by (simp_all add: lstrip_def)

lemma lstrip_space: "lstrip (CHR '' '' # s) = lstrip s"
  by (simp add: lstrip_def)

lemma data_lines_of_body:
  "filter (\<lambda>l. l \<noteq> [])
     (map lstrip ((case points of [] \<Rightarrow> [''    '']
                   | p # ps \<Rightarrow> (''    '' @ point_line p) # map point_line ps @ [[]]) @ [''    '']))
   = map point_line points"
proof (cases points)
  case Nil
  then show ?thesis
    by (simp add: lstrip_blank)
next
  case (Cons p ps)
  have "map lstrip (map point_line ps) = map point_line ps"
    by (simp add: lstrip_point_line(1))
  moreover have "filter (\<lambda>l. l \<noteq> []) (map point_line ps) = map point_line ps"
    by (simp add: filter_map comp_def lstrip_point_line(3))
  ultimately have "filter (\<lambda>l. l \<noteq> []) (map lstrip (map point_line ps)) = map point_line ps"
    by (simp only:)
  with Cons show ?thesis
    by (simp add: lstrip_point_line lstrip_blank lstrip_space)
qed

lemma length_ply_header: "length (ply_header n) = 11"
  by (simp add: ply_header_def)

lemma lstrip_ply_header:
  "map lstrip (ply_header n) =
     [''ply'', ''format ascii 1.0'', ''element vertex '' @ show_int n,
      ''property float x'', ''property float y'', ''property float z'',
      ''property uchar blue'', ''property uchar green'', ''property uchar red'',
      ''property uchar alpha'', ''end_header'']"
  by (simp add: ply_header_def lstrip_def)

lemma write_point_cloud_structure:
  assumes "\<forall>p \<in> set points. 6 \<le> length p"
  shows "\<exists>text. write_point_cloud fs ply_filename points = Inr (fs(ply_filename \<mapsto> text))
           \<and> header_lines text =
               [''ply'', ''format ascii 1.0'', ''element vertex '' @ decimal (int (length points)),
                ''property float x'', ''property float y'', ''property float z'',
                ''property uchar blue'', ''property uchar green'', ''property uchar red'',
                ''property uchar alpha'', ''end_header'']
           \<and> data_lines text = map point_line points"
proof -
  define n where "n = int (length points)"
  define content where "content = concat (map (\<lambda>l. l @ ''\<newline>'') (ply_header n)) @
      (''    '' @ concat (map (\<lambda>p. point_line p @ ''\<newline>'') points) @ ''\<newline>    '')"
  have w: "write_point_cloud fs ply_filename points = Inr (fs(ply_filename \<mapsto> content))"
    unfolding write_point_cloud_def format_points_lines [OF assms] bind_res_def sum.case
      py_format_template template_as_lines content_def n_def by (rule refl)
  have sp: "split_on CHR ''\<newline>'' content = ply_header n @
     (case points of [] \<Rightarrow> [''    ''] | p # ps \<Rightarrow> (''    '' @ point_line p) # map point_line ps @ [[]])
     @ [''    '']"
    unfolding content_def by (rule split_text)
  have h: "header_lines content = map lstrip (ply_header n)"
    unfolding header_lines_def sp by (simp add: length_ply_header)
  have "show_int n = decimal n"
    by (simp add: show_int_def n_def)
  with h have h': "header_lines content =
               [''ply'', ''format ascii 1.0'', ''element vertex '' @ decimal (int (length points)),
                ''property float x'', ''property float y'', ''property float z'',
                ''property uchar blue'', ''property uchar green'', ''property uchar red'',
                ''property uchar alpha'', ''end_header'']"
    by (simp only: lstrip_ply_header n_def)
  have d: "data_lines content = map point_line points"
  proof -
    have "drop 11 (ply_header n @ rest) = rest" for rest
      by (simp add: length_ply_header)
    then show ?thesis
      unfolding data_lines_def sp by (simp only: data_lines_of_body)
  qed
  from w h' d show ?thesis
    by blast
qed

lemma format_d_byte:
  assumes "0 \<le> q"
  shows "format_d (truncate q) = decimal \<lfloor>q\<rfloor>"
  using assms by (simp add: format_d_def truncate_def show_int_def)

lemma point_fields_bytes:
  assumes "0 \<le> p ! 3" and "0 \<le> p ! 4" and "0 \<le> p ! 5"
  shows "point_fields p =
     [format_f (p ! 0), format_f (p ! 1), format_f (p ! 2),
      decimal \<lfloor>p ! 3\<rfloor>, decimal \<lfloor>p ! 4\<rfloor>, decimal \<lfloor>p ! 5\<rfloor>, ''0'']"
  by (simp only: point_fields_def format_d_byte [OF assms(1)] format_d_byte [OF assms(2)]
      format_d_byte [OF assms(3)])

text \<open>
  C8. For every list of points with at least six entries each and colour entries (3, 4, 5)
  between 0 and 255, the call writes a file whose header declares \<open>x\<close>, \<open>y\<close>, \<open>z\<close> as
  float properties and four \<open>uchar\<close> properties, with a vertex count equal to the number
  of points, followed by exactly one data line per point: seven fields separated by single
  spaces, three floats with six decimals, three integers between 0 and 255 and a last
  field 0. (Lines are read without the indentation of the template, and the two trailing
  lines of blanks are not data lines.)
\<close>

theorem write_point_cloud_layout:
  assumes "\<forall>p \<in> set points. 6 \<le> length p
             \<and> 0 \<le> p ! 3 \<and> p ! 3 \<le> 255 \<and> 0 \<le> p ! 4 \<and> p ! 4 \<le> 255
             \<and> 0 \<le> p ! 5 \<and> p ! 5 \<le> 255"
  shows "\<exists>text. write_point_cloud fs ply_filename points = Inr (fs(ply_filename \<mapsto> text))
           \<and> header_lines text =
               [''ply'', ''format ascii 1.0'', ''element vertex '' @ decimal (int (length points)),
                ''property float x'', ''property float y'', ''property float z'',
                ''property uchar blue'', ''property uchar green'', ''property uchar red'',
                ''property uchar alpha'', ''end_header'']
           \<and> length (data_lines text) = length points
           \<and> (\<forall>k < length points.
                 split_on CHR '' '' (data_lines text ! k) =
                   [format_f (points ! k ! 0), format_f (points ! k ! 1), format_f (points ! k ! 2),
                    decimal \<lfloor>points ! k ! 3\<rfloor>, decimal \<lfloor>points ! k ! 4\<rfloor>,
                    decimal \<lfloor>points ! k ! 5\<rfloor>, ''0'']
                 \<and> is_float_field (format_f (points ! k ! 0))
                 \<and> is_float_field (format_f (points ! k ! 1))
                 \<and> is_float_field (format_f (points ! k ! 2))
                 \<and> 0 \<le> \<lfloor>points ! k ! 3\<rfloor> \<and> \<lfloor>points ! k ! 3\<rfloor> \<le> 255
                 \<and> 0 \<le> \<lfloor>points ! k ! 4\<rfloor> \<and> \<lfloor>points ! k ! 4\<rfloor> \<le> 255
                 \<and> 0 \<le> \<lfloor>points ! k ! 5\<rfloor> \<and> \<lfloor>points ! k ! 5\<rfloor> \<le> 255)"
proof -
  from assms have len: "\<forall>p \<in> set points. 6 \<le> length p"
    by blast
  from write_point_cloud_structure [OF len, of fs ply_filename]
  obtain content where w: "write_point_cloud fs ply_filename points = Inr (fs(ply_filename \<mapsto> content))"
    and h: "header_lines content =
               [''ply'', ''format ascii 1.0'', ''element vertex '' @ decimal (int (length points)),
                ''property float x'', ''property float y'', ''property float z'',
                ''property uchar blue'', ''property uchar green'', ''property uchar red'',
                ''property uchar alpha'', ''end_header'']"
    and d: "data_lines content = map point_line points"
    by blast
  have row: "split_on CHR '' '' (data_lines content ! k) =
                   [format_f (points ! k ! 0), format_f (points ! k ! 1), format_f (points ! k ! 2),
                    decimal \<lfloor>points ! k ! 3\<rfloor>, decimal \<lfloor>points ! k ! 4\<rfloor>,
                    decimal \<lfloor>points ! k ! 5\<rfloor>, ''0'']
                 \<and> 0 \<le> \<lfloor>points ! k ! 3\<rfloor> \<and> \<lfloor>points ! k ! 3\<rfloor> \<le> 255
                 \<and> 0 \<le> \<lfloor>points ! k ! 4\<rfloor> \<and> \<lfloor>points ! k ! 4\<rfloor> \<le> 255
                 \<and> 0 \<le> \<lfloor>points ! k ! 5\<rfloor> \<and> \<lfloor>points ! k ! 5\<rfloor> \<le> 255"
    if "k < length points" for k
  proof -
    from that have "points ! k \<in> set points"
      by simp
    with assms have b: "0 \<le> points ! k ! 3" "points ! k ! 3 \<le> 255" "0 \<le> points ! k ! 4"
      "points ! k ! 4 \<le> 255" "0 \<le> points ! k ! 5" "points ! k ! 5 \<le> 255"
      by blast+
    from that have "split_on CHR '' '' (data_lines content ! k) = point_fields (points ! k)"
      by (simp add: d split_point_line)
    with b show ?thesis
      by (simp add: point_fields_bytes floor_le_iff)
  qed
  from w h d row show ?thesis
    by (intro exI [of _ content]) (simp add: is_float_field_format_f)
qed

lemma render_examples:
  "format_f 0 = ''0.000000''" "format_f (- (1 / 4)) = ''-0.250000''" "format_f 1 = ''1.000000''"
  "format_f 3 = ''3.000000''"
  "decimal 255 = ''255''" "decimal 1 = ''1''" "decimal 3 = ''3''"
  "decimal 10 = ''10''" "decimal 20 = ''20''" "decimal 30 = ''30''"
  by code_simp+

theorem write_point_cloud_layout_witness:
  "\<exists>text. write_point_cloud Map.empty ''a.ply'' [[0, - 1 / 4, 1, 255, 255, 255]]
             = Inr [''a.ply'' \<mapsto> text]
     \<and> header_lines text ! 2 = ''element vertex 1''
     \<and> length (data_lines text) = 1
     \<and> split_on CHR '' '' (data_lines text ! 0)
         = [''0.000000'', ''-0.250000'', ''1.000000'', ''255'', ''255'', ''255'', ''0'']"
proof -
  have "\<forall>p \<in> set [[0, - 1 / 4, 1, 255, 255, 255 :: rat]]. 6 \<le> length p
             \<and> 0 \<le> p ! 3 \<and> p ! 3 \<le> 255 \<and> 0 \<le> p ! 4 \<and> p ! 4 \<le> 255
             \<and> 0 \<le> p ! 5 \<and> p ! 5 \<le> 255"
    by simp
  from write_point_cloud_layout [OF this, of Map.empty "''a.ply''"]
  show ?thesis
    by (auto simp: render_examples)
qed

lemma format_d_channel: "format_d (truncate (rat_of_nat (unat c))) = decimal (uint c)"
proof -
  have "\<lfloor>rat_of_nat (unat c)\<rfloor> = int (unat c)"
    by (rule floor_of_nat)
  moreover have "(0 :: rat) \<le> rat_of_nat (unat c)"
    by (rule of_nat_0_le_iff)
  ultimately show ?thesis
    by (simp only: format_d_byte uint_nat)
qed

lemma property_names_header:
  assumes "header_lines content =
               [''ply'', ''format ascii 1.0'', ''element vertex '' @ n,
                ''property float x'', ''property float y'', ''property float z'',
                ''property uchar blue'', ''property uchar green'', ''property uchar red'',
                ''property uchar alpha'', ''end_header'']"
  shows "property_names content = [''x'', ''y'', ''z'', ''blue'', ''green'', ''red'', ''alpha'']"
  by (simp add: property_names_def assms)

lemma point_fields_list:
  "point_fields [a, b, c, d, e, f] =
     [format_f a, format_f b, format_f c,
      format_d (truncate d), format_d (truncate e), format_d (truncate f), ''0'']"
  by (simp add: point_fields_def)

lemma point_fields_pixel_point:
  assumes "is_matrix 4 4 pose"
  shows "point_fields (pixel_point rgb depth scale K pose p) ! 3
           = decimal (uint (snd (snd (rgb ! fst p ! snd p))))"
    and "point_fields (pixel_point rgb depth scale K pose p) ! 4
           = decimal (uint (fst (snd (rgb ! fst p ! snd p))))"
    and "point_fields (pixel_point rgb depth scale K pose p) ! 5
           = decimal (uint (fst (rgb ! fst p ! snd p)))"
    and "length (pixel_point rgb depth scale K pose p) = 6"
  unfolding pixel_point_entries [OF assms] point_fields_list format_d_channel
  by simp_all

text \<open>
  C10. For the points that \<^verbatim>\<open>depth_image_to_point_cloud\<close> returns on a common grid, the
  header names the colour properties blue, green, red, alpha in this order, while the data
  line of the k-th positive-depth pixel holds, at the position the header names blue
  (field 3), the pixel's channel 2, which the source reads as red, at field 4 its channel 1
  (green) and, at the position the header names red (field 5), its channel 0, which the
  source reads as blue.
\<close>

theorem header_labels_against_data:
  assumes "rectangular rgb" and "rectangular depth" and "shape2 rgb = shape2 depth"
    and "0 < scale" and "is_matrix 3 3 K" and "is_matrix 4 4 pose"
  shows "\<exists>pts text.
           depth_image_to_point_cloud cv2_resize rgb depth scale K pose rgb_size = Inr pts
           \<and> write_point_cloud fs ply_filename pts = Inr (fs(ply_filename \<mapsto> text))
           \<and> property_names text = [''x'', ''y'', ''z'', ''blue'', ''green'', ''red'', ''alpha'']
           \<and> length (data_lines text) = length (positive_pixels depth)
           \<and> (\<forall>k < length (positive_pixels depth).
                 split_on CHR '' '' (data_lines text ! k) ! 3
                   = decimal (uint (snd (snd (rgb ! fst (positive_pixels depth ! k)
                                                  ! snd (positive_pixels depth ! k)))))
                 \<and> split_on CHR '' '' (data_lines text ! k) ! 4
                   = decimal (uint (fst (snd (rgb ! fst (positive_pixels depth ! k)
                                                  ! snd (positive_pixels depth ! k)))))
                 \<and> split_on CHR '' '' (data_lines text ! k) ! 5
                   = decimal (uint (fst (rgb ! fst (positive_pixels depth ! k)
                                             ! snd (positive_pixels depth ! k)))))"
proof -
  define pts where "pts = map (pixel_point rgb depth scale K pose) (positive_pixels depth)"
  have res: "depth_image_to_point_cloud cv2_resize rgb depth scale K pose rgb_size = Inr pts"
    using assms by (simp add: pts_def d2pc_pixelwise valid_pixels_positive)
  have "\<forall>p \<in> set pts. 6 \<le> length p"
    by (auto simp: pts_def point_fields_pixel_point(4) [OF assms(6)])
  from write_point_cloud_structure [OF this, of fs ply_filename]
  obtain content where w: "write_point_cloud fs ply_filename pts = Inr (fs(ply_filename \<mapsto> content))"
    and h: "header_lines content =
               [''ply'', ''format ascii 1.0'', ''element vertex '' @ decimal (int (length pts)),
                ''property float x'', ''property float y'', ''property float z'',
                ''property uchar blue'', ''property uchar green'', ''property uchar red'',
                ''property uchar alpha'', ''end_header'']"
    and d: "data_lines content = map point_line pts"
    by blast
  have n: "property_names content = [''x'', ''y'', ''z'', ''blue'', ''green'', ''red'', ''alpha'']"
    by (rule property_names_header [OF h])
  have l: "length (data_lines content) = length (positive_pixels depth)"
    by (simp add: d pts_def)
  have f: "split_on CHR '' '' (data_lines content ! k)
           = point_fields (pixel_point rgb depth scale K pose (positive_pixels depth ! k))"
    if "k < length (positive_pixels depth)" for k
    using that by (simp add: d pts_def split_point_line)
  from res w n l show ?thesis
    by (intro exI [of _ pts] exI [of _ content])
       (simp add: f point_fields_pixel_point(1-3) [OF assms(6)])
qed

theorem header_labels_against_data_witness:
  "\<exists>pts text.
     depth_image_to_point_cloud resize_constant
       [[(255, 255, 255), (255, 255, 255)], [(255, 255, 255), (10, 20, 30)]]
       [[0, 1000], [2000, 3000]] 1000 [[2, 0, 1], [0, 4, 1], [0, 0, 1]] (eye 4) None = Inr pts
     \<and> write_point_cloud Map.empty ''a.ply'' pts = Inr [''a.ply'' \<mapsto> text]
     \<and> property_names text ! 3 = ''blue''
     \<and> split_on CHR '' '' (data_lines text ! 2) ! 3 = ''30''
     \<and> property_names text ! 5 = ''red''
     \<and> split_on CHR '' '' (data_lines text ! 2) ! 5 = ''10''"
proof -
  have "(0 :: rat) < 1000"
    by simp
  from header_labels_against_data [OF scenario_facts(1-3) this scenario_facts(4) is_matrix_eye_4,
      of resize_constant None Map.empty "''a.ply''"]
  obtain pts content where
    "depth_image_to_point_cloud resize_constant
       [[(255, 255, 255), (255, 255, 255)], [(255, 255, 255), (10, 20, 30)]]
       [[0, 1000], [2000, 3000]] 1000 [[2, 0, 1], [0, 4, 1], [0, 0, 1]] (eye 4) None = Inr pts"
    and "write_point_cloud Map.empty ''a.ply'' pts = Inr [''a.ply'' \<mapsto> content]"
    and "property_names content = [''x'', ''y'', ''z'', ''blue'', ''green'', ''red'', ''alpha'']"
    and "split_on CHR '' '' (data_lines content ! 2) ! 3 = decimal 30"
    and "split_on CHR '' '' (data_lines content ! 2) ! 5 = decimal 10"
    by (auto simp: scenario_facts(5))
  then show ?thesis
    by (intro exI [of _ pts] exI [of _ content]) (simp add: render_examples)
qed

end
